theory Spec2Isabelle
  imports
    Complex_Main
    "HOL-Library.Char_ord"
    "HOL-Library.List_Lexorder"
    "HOL-Library.Product_Lexorder"
    "HOL-Library.Word"
begin

section \<open>Fulfillment-center capacity and bottleneck analytics\<close>

text \<open>
  A shallow embedding of the Python modules \<^verbatim>\<open>generate_data.py\<close>, \<^verbatim>\<open>preprocess.py\<close>,
  \<^verbatim>\<open>capacity.py\<close>, \<^verbatim>\<open>bottleneck.py\<close> and \<^verbatim>\<open>recommendations.py\<close>.

  Conventions of the embedding:
  \<^item> a pandas DataFrame is a list of rows (a record per row, a field per column);
  \<^item> a float64 is an exact rational (\<^typ>\<open>rat\<close>): rounding, infinities and NaN are not
    modelled, and where the source would produce a non-finite value that makes it raise,
    the model raises too;
  \<^item> a timestamp is a number of hours and a date a number of days (since day 0 of the
    proleptic calendar, \<^verbatim>\<open>date.toordinal()\<close>);
  \<^item> an exception is the left injection of a sum;
  \<^item> NumPy's global random generator is an explicit state of an abstract type, threaded
    through the draws in the order in which the source makes them.
\<close>

subsection \<open>Numeric helpers\<close>

datatype error = ValueError string

text \<open>The guard \<^verbatim>\<open>1e-6\<close> added to every denominator.\<close>

definition eps :: rat where
  "eps = 1 / 1000000"

text \<open>\<^verbatim>\<open>x.clip(lo, hi)\<close> and \<^verbatim>\<open>np.clip(x, lo, hi)\<close>: \<^verbatim>\<open>minimum(maximum(x, lo), hi)\<close>.\<close>

definition clip :: "rat \<Rightarrow> rat \<Rightarrow> rat \<Rightarrow> rat" where
  "clip lo hi x = min (max x lo) hi"

text \<open>\<^verbatim>\<open>x.mean()\<close> of a column.\<close>

definition mean :: "rat list \<Rightarrow> rat" where
  "mean xs = sum_list xs / of_nat (length xs)"

subsection \<open>NumPy's seeded random generator\<close>

text \<open>
  The generator is not part of the repository; it is a parameter of the model: a state type
  \<open>'g\<close> with the state that \<^verbatim>\<open>np.random.seed(s)\<close> installs, one standard-normal draw, one
  uniform draw on \<open>[0,1)\<close>, and the sample that \<^verbatim>\<open>choice(n, size=k, replace=False)\<close>
  returns once its argument checks have passed.
\<close>

record 'g numpy_random =
  rng_seed :: "int \<Rightarrow> 'g"
  rng_standard_normal :: "'g \<Rightarrow> rat \<times> 'g"
  rng_random :: "'g \<Rightarrow> rat \<times> 'g"
  rng_sample :: "'g \<Rightarrow> nat \<Rightarrow> nat \<Rightarrow> nat list \<times> 'g"

text \<open>\<^verbatim>\<open>np.random.seed(s)\<close> accepts only \<open>0 \<le> s < 2^32\<close>.\<close>

definition np_random_seed :: "'g numpy_random \<Rightarrow> int \<Rightarrow> error + 'g" where
  "np_random_seed R s =
     (if 0 \<le> s \<and> s < 2 ^ 32 then Inr (rng_seed R s)
      else Inl (ValueError ''Seed must be between 0 and 2**32 - 1''))"

text \<open>
  \<^verbatim>\<open>np.random.normal(loc, scale)\<close> with an array of scales: one draw per element, in order,
  each \<open>loc + scale * z\<close>; a negative scale raises.
\<close>

fun np_random_normal :: "'g numpy_random \<Rightarrow> rat \<Rightarrow> rat list \<Rightarrow> 'g \<Rightarrow> error + (rat list \<times> 'g)" where
  "np_random_normal R loc [] g = Inr ([], g)"
| "np_random_normal R loc (scale # scales) g =
     (if scale < 0 then Inl (ValueError ''scale < 0'')
      else (let (z, g') = rng_standard_normal R g in
        case np_random_normal R loc scales g' of
          Inl e \<Rightarrow> Inl e
        | Inr (zs, g'') \<Rightarrow> Inr ((loc + scale * z) # zs, g'')))"

text \<open>\<^verbatim>\<open>np.random.normal(loc, scale, n)\<close> with one scale: the scale is checked first, then
  \<open>n\<close> draws, in order.\<close>

definition np_random_normal_size ::
  "'g numpy_random \<Rightarrow> rat \<Rightarrow> rat \<Rightarrow> nat \<Rightarrow> 'g \<Rightarrow> error + (rat list \<times> 'g)" where
  "np_random_normal_size R loc scale n g =
     (if scale < 0 then Inl (ValueError ''scale < 0'')
      else np_random_normal R loc (replicate n scale) g)"

text \<open>\<^verbatim>\<open>np.random.random(n)\<close>: \<open>n\<close> uniform draws, in order.\<close>

fun np_random_random :: "'g numpy_random \<Rightarrow> nat \<Rightarrow> 'g \<Rightarrow> rat list \<times> 'g" where
  "np_random_random R 0 g = ([], g)"
| "np_random_random R (Suc n) g =
     (let (u, g') = rng_random R g; (us, g'') = np_random_random R n g' in (u # us, g''))"

text \<open>
  \<^verbatim>\<open>np.random.choice(a, size=size, replace=False)\<close> for an integer \<open>a\<close>: the argument checks
  of NumPy, then the sample.
\<close>

definition np_random_choice :: "'g numpy_random \<Rightarrow> int \<Rightarrow> int \<Rightarrow> 'g \<Rightarrow> error + (nat list \<times> 'g)" where
  "np_random_choice R a sz g =
     (if a \<le> 0 \<and> sz \<noteq> 0 then
        Inl (ValueError ''a must be greater than 0 unless no samples are taken'')
      else if sz > a then
        Inl (ValueError ''Cannot take a larger sample than population when replace=False'')
      else if sz < 0 then Inl (ValueError ''negative dimensions are not allowed'')
      else Inr (rng_sample R g (nat a) (nat sz)))"

subsection \<open>Tables\<close>

text \<open>The raw hourly-per-step table written by the generator.\<close>

record raw_row =
  timestamp :: int
  step :: string
  demand_units :: rat
  capacity_units :: rat
  processed_units :: rat
  backlog_units :: rat
  utilization :: rat
  cycle_time_min :: rat
  uph :: rat
  labor_hours_used :: rat
  headcount_used :: int

subsection \<open>Step simulator (\<^verbatim>\<open>generate_data.generate_step_data\<close>)\<close>

text \<open>
  The seed of a step: \<^verbatim>\<open>random_state + hash(step) % 1000\<close>. Python's \<^verbatim>\<open>hash\<close> of a string
  is salted per interpreter process, so it is a parameter.
\<close>

definition step_seed :: "(string \<Rightarrow> int) \<Rightarrow> int \<Rightarrow> string \<Rightarrow> int" where
  "step_seed py_hash random_state stp = random_state + py_hash stp mod 1000"

text \<open>
  The hour-by-hour loop over \<^verbatim>\<open>range(len(df))\<close>; the two arrays start as zeros and are
  updated in place.
\<close>

fun backlog_loop ::
  "rat list \<Rightarrow> rat list \<Rightarrow> nat list \<Rightarrow> rat list \<times> rat list \<Rightarrow> rat list \<times> rat list" where
  "backlog_loop step_demand capacity [] st = st"
| "backlog_loop step_demand capacity (i # is) (processed_arr, backlog_arr) =
     (let demand_in = step_demand ! i;
          backlog_in = (if i > 0 then backlog_arr ! (i - 1) else 0);
          total_demand = demand_in + backlog_in;
          processed = min total_demand (capacity ! i)
      in backlog_loop step_demand capacity is
           (processed_arr[i := processed], backlog_arr[i := max 0 (total_demand - processed)]))"

definition step_lag :: "string \<Rightarrow> rat" where
  "step_lag stp = (if stp = ''pick'' then 1 else if stp = ''pack'' then 2 else 3)"

definition apply_downtime :: "rat \<Rightarrow> rat \<Rightarrow> rat \<Rightarrow> rat \<Rightarrow> rat" where
  "apply_downtime downtime_probability downtime_severity c u =
     (if u < downtime_probability then c * (1 - downtime_severity) else c)"

text \<open>
  The derived columns of one hour. The capacity is floored at zero before, so
  \<open>capacity + \<epsilon>\<close> is positive; the degenerate \<open>uph = -\<epsilon>\<close>, where the source divides by
  zero, is outside the model.
\<close>

definition make_row ::
  "string \<Rightarrow> rat \<Rightarrow> rat \<Rightarrow> rat \<Rightarrow> int \<Rightarrow> rat \<Rightarrow> rat \<Rightarrow> rat \<Rightarrow> rat \<Rightarrow> raw_row" where
  "make_row stp uph_v cycle_time_base congestion_multiplier_max ts d c p b =
     (let util = clip 0 1 (p / (c + eps));
          congestion_factor =
            clip 1 congestion_multiplier_max
              (1 + (util - 7 / 10) * (congestion_multiplier_max - 1) / (3 / 10));
          labor = p / (uph_v + eps)
      in \<lparr> timestamp = ts, step = stp, demand_units = d, capacity_units = c,
           processed_units = p, backlog_units = b, utilization = util,
           cycle_time_min = cycle_time_base * congestion_factor, uph = uph_v,
           labor_hours_used = labor, headcount_used = \<lceil>labor\<rceil> \<rparr>)"

definition generate_step_data ::
  "'g numpy_random \<Rightarrow> (string \<Rightarrow> int) \<Rightarrow> (int \<times> rat) list \<Rightarrow> string \<Rightarrow> rat \<Rightarrow> rat \<Rightarrow> rat
     \<Rightarrow> rat \<Rightarrow> rat \<Rightarrow> rat \<Rightarrow> rat \<Rightarrow> int \<Rightarrow> error + raw_row list" where
  "generate_step_data R py_hash demand_df stp step_capacity_base capacity_variability_std
      downtime_probability downtime_severity uph_v cycle_time_base congestion_multiplier_max
      random_state =
     (case np_random_seed R (step_seed py_hash random_state stp) of
        Inl e \<Rightarrow> Inl e
      | Inr g0 \<Rightarrow>
         (let n = length demand_df;
              demand = map snd demand_df;
              lagged = map (\<lambda>d. d * (1 - (5 / 100) * step_lag stp)) demand
          in case (if stp = ''receive'' then Inr (demand, g0)
                   else (case np_random_normal R 0 (map (\<lambda>d. d * (5 / 100)) lagged) g0 of
                           Inl e \<Rightarrow> Inl e
                         | Inr (noise, g) \<Rightarrow> Inr (map2 (\<lambda>d z. max 0 (d + z)) lagged noise, g))) of
               Inl e \<Rightarrow> Inl e
             | Inr (step_demand, g1) \<Rightarrow>
                (case np_random_normal_size R 0 capacity_variability_std n g1 of
                   Inl e \<Rightarrow> Inl e
                 | Inr (cap_noise, g2) \<Rightarrow>
                    (let base_capacity = mean step_demand * step_capacity_base;
                         capacity0 = map (\<lambda>z. base_capacity * (1 + z)) cap_noise;
                         (us, g3) = np_random_random R n g2;
                         capacity =
                           map (max 0)
                             (map2 (apply_downtime downtime_probability downtime_severity)
                                capacity0 us);
                         (processed_arr, backlog_arr) =
                           backlog_loop step_demand capacity [0..<n]
                             (replicate n 0, replicate n 0)
                     in Inr (map (\<lambda>i. make_row stp uph_v cycle_time_base
                                          congestion_multiplier_max (fst (demand_df ! i))
                                          (step_demand ! i) (capacity ! i) (processed_arr ! i)
                                          (backlog_arr ! i))
                               [0..<n])))))"


text \<open>The table \<open>out\<close> read back: the backlog carried into hour \<open>t\<close> of a step's sequence.\<close>

definition backlog_in_at :: "raw_row list \<Rightarrow> nat \<Rightarrow> rat" where
  "backlog_in_at out t = (if t > 0 then backlog_units (out ! (t - 1)) else 0)"

text \<open>The recurrence on the two arrays, up to hour \<open>k\<close>.\<close>

definition recurrence_upto :: "rat list \<Rightarrow> rat list \<Rightarrow> rat list \<Rightarrow> rat list \<Rightarrow> nat \<Rightarrow> bool" where
  "recurrence_upto sd cap pa ba k \<longleftrightarrow>
     (\<forall>t<k. pa ! t = min (sd ! t + (if t > 0 then ba ! (t - 1) else 0)) (cap ! t) \<and>
            ba ! t = max 0 (sd ! t + (if t > 0 then ba ! (t - 1) else 0) - pa ! t))"

text \<open>A generator whose every normal draw is 0 and every uniform draw is 1/2, for concrete runs.\<close>

definition constant_random :: "nat numpy_random" where
  "constant_random =
     \<lparr> rng_seed = (\<lambda>s. 0), rng_standard_normal = (\<lambda>g. (0, Suc g)),
       rng_random = (\<lambda>g. (1 / 2, Suc g)), rng_sample = (\<lambda>g n k. ([0..<k], Suc g)) \<rparr>"

subsection \<open>Demand generator (\<^verbatim>\<open>generate_data.generate_hourly_demand\<close>)\<close>

record hourly_seasonality =
  peak_hours :: "nat list"
  peak_multiplier :: rat
  off_peak_multiplier :: rat

record day_of_week =
  weekend_multiplier :: rat
  weekday_multiplier :: rat

text \<open>\<^verbatim>\<open>date.weekday()\<close> of a day ordinal: Monday is 0, and ordinal 1 is a Monday.\<close>

definition weekday :: "int \<Rightarrow> int" where
  "weekday d = (d + 6) mod 7"

text \<open>The inner loop \<^verbatim>\<open>for hour in range(24)\<close>: one noise draw per hour, in order.\<close>

fun hours_loop ::
  "'g numpy_random \<Rightarrow> rat \<Rightarrow> hourly_seasonality \<Rightarrow> rat \<Rightarrow> rat \<Rightarrow> int \<Rightarrow> nat list \<Rightarrow> 'g
     \<Rightarrow> (int \<times> rat) list \<times> 'g" where
  "hours_loop R base_demand_mean hs dow_multiplier promo_mult current_date [] g = ([], g)"
| "hours_loop R base_demand_mean hs dow_multiplier promo_mult current_date (hour # hours) g =
     (let ts = 24 * current_date + int hour;
          hour_mult = (if hour \<in> set (peak_hours hs) then peak_multiplier hs
                       else off_peak_multiplier hs);
          hourly_demand = (base_demand_mean / 24) * dow_multiplier * hour_mult * promo_mult;
          (z, g') = rng_standard_normal R g;
          noise = 1 + (1 / 10) * z;
          (rest, g'') =
            hours_loop R base_demand_mean hs dow_multiplier promo_mult current_date hours g'
      in ((ts, max 0 (hourly_demand * noise)) # rest, g''))"

text \<open>The outer loop \<^verbatim>\<open>for day in range(num_days)\<close>.\<close>

fun days_loop ::
  "'g numpy_random \<Rightarrow> int \<Rightarrow> rat \<Rightarrow> hourly_seasonality \<Rightarrow> day_of_week \<Rightarrow> nat list \<Rightarrow> rat
     \<Rightarrow> nat list \<Rightarrow> 'g \<Rightarrow> (int \<times> rat) list \<times> 'g" where
  "days_loop R start base_demand_mean hs dow promo_day_indices promo_multiplier [] g = ([], g)"
| "days_loop R start base_demand_mean hs dow promo_day_indices promo_multiplier (day # days) g =
     (let current_date = start + int day;
          is_weekend = (weekday current_date \<ge> 5);
          is_promo = (day \<in> set promo_day_indices);
          dow_multiplier = (if is_weekend then weekend_multiplier dow else weekday_multiplier dow);
          promo_mult = (if is_promo then promo_multiplier else 1);
          (today, g') =
            hours_loop R base_demand_mean hs dow_multiplier promo_mult current_date [0..<24] g;
          (rest, g'') =
            days_loop R start base_demand_mean hs dow promo_day_indices promo_multiplier days g'
      in (today @ rest, g''))"

definition generate_hourly_demand ::
  "'g numpy_random \<Rightarrow> int \<Rightarrow> int \<Rightarrow> rat \<Rightarrow> hourly_seasonality \<Rightarrow> day_of_week \<Rightarrow> int \<Rightarrow> rat
     \<Rightarrow> int \<Rightarrow> error + (int \<times> rat) list" where
  "generate_hourly_demand R start num_days base_demand_mean hs dow promo_days promo_multiplier
      random_state =
     (case np_random_seed R random_state of
        Inl e \<Rightarrow> Inl e
      | Inr g0 \<Rightarrow>
         (case np_random_choice R num_days promo_days g0 of
            Inl e \<Rightarrow> Inl e
          | Inr (promo_day_indices, g1) \<Rightarrow>
             Inr (fst (days_loop R start base_demand_mean hs dow promo_day_indices
                         promo_multiplier [0..<nat num_days] g1))))"


subsection \<open>Schema validation (\<^verbatim>\<open>preprocess.validate_schema\<close>)\<close>

text \<open>
  Only the column names and dtypes of the table matter here: a table is the list of its
  columns, each with its dtype.
\<close>

datatype dtype = Int64 | Float64 | Bool | Object | Datetime64

definition is_numeric_dtype :: "dtype \<Rightarrow> bool" where
  "is_numeric_dtype d = (d = Int64 \<or> d = Float64 \<or> d = Bool)"

datatype schema_error = MissingColumns "string set" | MustBeNumeric string

definition required_columns :: "string list" where
  "required_columns =
     [''timestamp'', ''step'', ''demand_units'', ''capacity_units'', ''processed_units'',
      ''backlog_units'', ''utilization'', ''cycle_time_min'', ''uph'', ''labor_hours_used'',
      ''headcount_used'']"

text \<open>\<^verbatim>\<open>is_numeric_dtype(df[c])\<close> for a column \<open>c\<close> that is present.\<close>

definition numeric_column :: "(string \<times> dtype) list \<Rightarrow> string \<Rightarrow> bool" where
  "numeric_column df c = (case map_of df c of Some d \<Rightarrow> is_numeric_dtype d | None \<Rightarrow> False)"

definition validate_schema :: "(string \<times> dtype) list \<Rightarrow> schema_error + unit" where
  "validate_schema df =
     (let missing = set required_columns - set (map fst df) in
      if missing \<noteq> {} then Inl (MissingColumns missing)
      else if \<not> numeric_column df ''demand_units'' then Inl (MustBeNumeric ''demand_units'')
      else if \<not> numeric_column df ''capacity_units'' then Inl (MustBeNumeric ''capacity_units'')
      else if \<not> numeric_column df ''processed_units'' then Inl (MustBeNumeric ''processed_units'')
      else Inr ())"

text \<open>The columns that an error message names.\<close>

fun named_columns :: "schema_error \<Rightarrow> string set" where
  "named_columns (MissingColumns cs) = cs"
| "named_columns (MustBeNumeric c) = {c}"

text \<open>The columns that are invalid: the required ones that are absent, and the type-checked
  ones that are present and not numeric.\<close>

definition missing_columns :: "(string \<times> dtype) list \<Rightarrow> string set" where
  "missing_columns df = set required_columns - set (map fst df)"

definition type_checked_columns :: "string list" where
  "type_checked_columns = [''demand_units'', ''capacity_units'', ''processed_units'']"

definition non_numeric_columns :: "(string \<times> dtype) list \<Rightarrow> string set" where
  "non_numeric_columns df =
     {c \<in> set type_checked_columns. c \<in> set (map fst df) \<and> \<not> numeric_column df c}"

subsection \<open>The analytics table\<close>

text \<open>
  The hourly-per-step table of the analytics stages: the raw columns, the date added by
  preprocessing, and the columns that \<^verbatim>\<open>compute_service_level\<close> assigns.
\<close>

record row = raw_row +
  date :: int
  backlog_in :: rat
  total_demand :: rat
  service_level_hourly :: rat
  throughput_loss_units :: rat

text \<open>
  \<^verbatim>\<open>df.sort_values(['step', 'timestamp']).reset_index(drop=True)\<close>: a stable sort on the
  pair of keys.
\<close>

definition sort_values_step_timestamp :: "row list \<Rightarrow> row list" where
  "sort_values_step_timestamp df = sort_key (\<lambda>r. (step r, timestamp r)) df"

text \<open>
  \<^verbatim>\<open>df.groupby(key)[col].shift(1)\<close>: for each row the value of the previous row of the same
  group, in table order; \<open>None\<close> (NaN) for the first row of a group. The map holds the last
  value seen in each group.
\<close>

fun groupby_shift :: "(string \<rightharpoonup> rat) \<Rightarrow> (string \<times> rat) list \<Rightarrow> rat option list" where
  "groupby_shift seen [] = []"
| "groupby_shift seen ((k, v) # kvs) = seen k # groupby_shift (seen(k \<mapsto> v)) kvs"

text \<open>\<^verbatim>\<open>.fillna(0)\<close>\<close>

definition fillna0 :: "rat option \<Rightarrow> rat" where
  "fillna0 x = (case x of None \<Rightarrow> 0 | Some v \<Rightarrow> v)"

text \<open>\<^verbatim>\<open>df.groupby('step')['backlog_units'].shift(1).fillna(0)\<close>\<close>

definition shifted_backlog :: "row list \<Rightarrow> rat list" where
  "shifted_backlog df =
     map fillna0 (groupby_shift Map.empty (map (\<lambda>r. (step r, backlog_units r)) df))"

text \<open>
  The same-step previous-hour backlog read off a table that is sorted by step and
  timestamp: the backlog of the row just above when that row is of the same step, 0
  for the first row of each step.
\<close>

definition previous_backlog :: "'a row_scheme list \<Rightarrow> nat \<Rightarrow> rat" where
  "previous_backlog df i =
     (if i > 0 \<and> step (df ! (i - 1)) = step (df ! i) then backlog_units (df ! (i - 1)) else 0)"

subsection \<open>Metrics aggregator (\<^verbatim>\<open>capacity.py\<close>)\<close>

definition compute_utilization :: "row list \<Rightarrow> row list" where
  "compute_utilization df =
     map (\<lambda>r. r\<lparr>utilization := clip 0 1 (processed_units r / (capacity_units r + eps))\<rparr>) df"

text \<open>
  The service level divides by the clipped denominator, as the source's parentheses have
  it: \<^verbatim>\<open>processed / (total_demand + 1e-6).clip(0, 1)\<close>.
\<close>

definition service_level_row :: "row \<Rightarrow> rat \<Rightarrow> row" where
  "service_level_row r b =
     (let td = demand_units r + b in
      r\<lparr> backlog_in := b,
         total_demand := td,
         service_level_hourly := processed_units r / clip 0 1 (td + eps),
         throughput_loss_units := max 0 (td - processed_units r) \<rparr>)"

definition compute_service_level :: "row list \<Rightarrow> row list" where
  "compute_service_level df =
     (let df' = sort_values_step_timestamp df
      in map2 service_level_row df' (shifted_backlog df'))"

text \<open>The service level that the specification describes, for comparison.\<close>

definition spec_service_level :: "rat \<Rightarrow> rat \<Rightarrow> rat \<Rightarrow> rat" where
  "spec_service_level processed demand b = clip 0 1 (processed / (demand + b + eps))"

text \<open>
  The daily-per-step aggregate: \<^verbatim>\<open>df.groupby(['date', 'step']).agg({...}).reset_index()\<close>.
  One output row per key that occurs, keys in increasing order.
\<close>

record daily_step_row =
  d_date :: int
  d_step :: string
  d_demand_units :: rat
  d_capacity_units :: rat
  d_processed_units :: rat
  d_backlog_units :: rat
  d_utilization :: rat
  d_cycle_time_min :: rat
  d_service_level_hourly :: rat
  d_throughput_loss_units :: rat
  d_labor_hours_used :: rat
  d_headcount_used :: int

definition group_keys :: "row list \<Rightarrow> (int \<times> string) list" where
  "group_keys df = sort (remdups (map (\<lambda>r. (date r, step r)) df))"

definition group_rows :: "row list \<Rightarrow> int \<times> string \<Rightarrow> row list" where
  "group_rows df k = filter (\<lambda>r. (date r, step r) = k) df"

definition aggregate_group :: "int \<times> string \<Rightarrow> row list \<Rightarrow> daily_step_row" where
  "aggregate_group k g =
     \<lparr> d_date = fst k, d_step = snd k,
       d_demand_units = sum_list (map demand_units g),
       d_capacity_units = sum_list (map capacity_units g),
       d_processed_units = sum_list (map processed_units g),
       d_backlog_units = mean (map backlog_units g),
       d_utilization = mean (map utilization g),
       d_cycle_time_min = mean (map cycle_time_min g),
       d_service_level_hourly = mean (map service_level_hourly g),
       d_throughput_loss_units = sum_list (map throughput_loss_units g),
       d_labor_hours_used = sum_list (map labor_hours_used g),
       d_headcount_used = sum_list (map headcount_used g) \<rparr>"

definition aggregate_daily_metrics :: "row list \<Rightarrow> daily_step_row list" where
  "aggregate_daily_metrics df = map (\<lambda>k. aggregate_group k (group_rows df k)) (group_keys df)"


subsection \<open>Bottleneck detector (\<^verbatim>\<open>bottleneck.detect_bottlenecks\<close>)\<close>

record bottleneck_row = row +
  backlog_change :: rat
  is_bottleneck :: bool
  bottleneck_step :: "string option"

text \<open>\<^verbatim>\<open>df.groupby('step')['backlog_units'].diff().fillna(0)\<close>\<close>

definition backlog_diff :: "row list \<Rightarrow> rat list" where
  "backlog_diff df =
     map2 (\<lambda>r p. fillna0 (map_option (\<lambda>v. backlog_units r - v) p)) df
       (groupby_shift Map.empty (map (\<lambda>r. (step r, backlog_units r)) df))"

text \<open>The table after the flag is assigned: each row with its two new columns.\<close>

definition flag_rows :: "rat \<Rightarrow> row list \<Rightarrow> (row \<times> rat \<times> bool) list" where
  "flag_rows threshold_util df =
     map2 (\<lambda>r c. (r, c, utilization r \<ge> threshold_util \<and> (c > 0 \<or> throughput_loss_units r > 0)))
       df (backlog_diff df)"

text \<open>\<^verbatim>\<open>s.idxmax()\<close>: the position of the first occurrence of the maximum.\<close>

definition idxmax :: "rat list \<Rightarrow> nat" where
  "idxmax xs = length (takeWhile (\<lambda>x. x \<noteq> Max (set xs)) xs)"

text \<open>The inner function, applied to the rows of one timestamp (never an empty group).\<close>

definition get_bottleneck_step :: "rat \<Rightarrow> row list \<Rightarrow> string option" where
  "get_bottleneck_step threshold_util grp =
     (if Max (set (map utilization grp)) \<ge> threshold_util then
        Some (step (grp ! idxmax (map utilization grp)))
      else if Max (set (map throughput_loss_units grp)) > 0 then
        Some (step (grp ! idxmax (map throughput_loss_units grp)))
      else None)"

text \<open>\<^verbatim>\<open>df.groupby('timestamp').apply(get_bottleneck_step)\<close>: one result per timestamp that
  occurs, timestamps in increasing order, each group in table order.\<close>

definition timestamp_group :: "row list \<Rightarrow> int \<Rightarrow> row list" where
  "timestamp_group df ts = filter (\<lambda>r. timestamp r = ts) df"

definition groupby_timestamp_apply :: "rat \<Rightarrow> row list \<Rightarrow> (int \<times> string option) list" where
  "groupby_timestamp_apply threshold_util df =
     map (\<lambda>ts. (ts, get_bottleneck_step threshold_util (timestamp_group df ts)))
       (sort (remdups (map timestamp df)))"

text \<open>
  When the applied function returns \<open>None\<close> for every group (or there is no group), pandas'
  \<^verbatim>\<open>apply\<close> returns an empty frame instead of a series, \<^verbatim>\<open>reset_index()\<close> gives it a
  number of columns other than two, and the assignment of the two column names raises
  \<^verbatim>\<open>ValueError\<close>. Otherwise the left merge on the timestamp gives every row the result
  of its timestamp.
\<close>

definition merge_row :: "(int \<times> string option) list \<Rightarrow> row \<times> rat \<times> bool \<Rightarrow> bottleneck_row" where
  "merge_row hourly_bottleneck =
     (\<lambda>(r, c, f).
        row.extend r
          (bottleneck_row.fields c f
             (case map_of hourly_bottleneck (timestamp r) of Some b \<Rightarrow> b | None \<Rightarrow> None)))"

definition detect_bottlenecks :: "row list \<Rightarrow> rat \<Rightarrow> error + bottleneck_row list" where
  "detect_bottlenecks df threshold_util =
     (let df' = sort_values_step_timestamp df;
          flagged = flag_rows threshold_util df';
          hourly_bottleneck = groupby_timestamp_apply threshold_util df'
      in if list_all (\<lambda>(ts, b). b = None) hourly_bottleneck then
           Inl (ValueError ''Length mismatch'')
         else Inr (map (merge_row hourly_bottleneck) flagged))"

text \<open>
  The backlog change read off a table that is sorted by step and timestamp: the difference
  with the row just above when that row is of the same step, 0 for the first row of each step.
\<close>

definition backlog_change_at :: "'a row_scheme list \<Rightarrow> nat \<Rightarrow> rat" where
  "backlog_change_at df i =
     (if i > 0 \<and> step (df ! (i - 1)) = step (df ! i)
      then backlog_units (df ! i) - backlog_units (df ! (i - 1)) else 0)"

subsection \<open>Staffing recommender (\<^verbatim>\<open>recommendations.compute_staffing_recommendations\<close>)\<close>

record staffing_row = row +
  required_units :: rat
  required_capacity_units :: rat
  required_labor_hours :: rat
  recommended_headcount :: int
  headcount_gap :: int
  labor_cost_impact :: rat

text \<open>
  Float division of a column: a zero denominator gives an infinity or NaN, written \<open>None\<close>;
  nothing is raised at the division.
\<close>

definition fdiv :: "rat \<Rightarrow> rat \<Rightarrow> rat option" where
  "fdiv a b = (if b = 0 then None else Some (a / b))"

text \<open>
  The integer columns are int64. \<^verbatim>\<open>astype(int)\<close> casts a finite float to int64: an integral
  value within the range is kept; outside the range the C cast is undefined, and NumPy on
  x86-64 returns \<open>-2^63\<close>. Subtraction and multiplication of int64 columns wrap around.
\<close>

definition in_int64 :: "int \<Rightarrow> bool" where
  "in_int64 x \<longleftrightarrow> - (2 ^ 63) \<le> x \<and> x < 2 ^ 63"

definition int64 :: "int \<Rightarrow> int" where
  "int64 x = (x + 2 ^ 63) mod 2 ^ 64 - 2 ^ 63"

definition astype_int64 :: "int \<Rightarrow> int" where
  "astype_int64 n = (if in_int64 n then n else - (2 ^ 63))"

text \<open>
  The wage comes from the configuration as a Python float or as a Python integer; an
  integer wage is taken within the int64 range (a 64-bit word read as signed).
\<close>

datatype wage = FloatWage rat | IntWage "64 word"

definition wage_value :: "wage \<Rightarrow> rat" where
  "wage_value w = (case w of FloatWage x \<Rightarrow> x | IntWage n \<Rightarrow> of_int (sint n))"

text \<open>
  \<^verbatim>\<open>np.maximum(0, df['headcount_gap']) * wage_per_hour\<close>: the int64 column times a float is
  a float product; times an integer it is an int64 product, which wraps.
\<close>

definition labor_cost :: "wage \<Rightarrow> int \<Rightarrow> rat" where
  "labor_cost w g =
     (case w of
        FloatWage x \<Rightarrow> of_int g * x
      | IntWage n \<Rightarrow> of_int (int64 (g * sint n)))"

text \<open>The integer product stays within int64 (always so for a float wage).\<close>

definition cost_in_int64 :: "wage \<Rightarrow> int \<Rightarrow> bool" where
  "cost_in_int64 w g = (case w of FloatWage x \<Rightarrow> True | IntWage n \<Rightarrow> in_int64 (g * sint n))"

text \<open>
  The columns of one row. \<^verbatim>\<open>df['step'].map(uph_by_step)\<close> is NaN for a step that the
  dictionary lacks, and a non-finite value stays non-finite through the later divisions.
\<close>

definition staffing_columns ::
  "rat \<Rightarrow> (string \<rightharpoonup> rat) \<Rightarrow> wage \<Rightarrow> row \<Rightarrow> rat \<Rightarrow> staffing_row option" where
  "staffing_columns service_target uph_by_step wage_per_hour r b =
     (let req = demand_units r + b in
      case fdiv req service_target of
        None \<Rightarrow> None
      | Some cap \<Rightarrow>
         (case uph_by_step (step r) of
            None \<Rightarrow> None
          | Some u \<Rightarrow>
             (case fdiv cap (u + eps) of
                None \<Rightarrow> None
              | Some hours \<Rightarrow>
                 (let rec = astype_int64 \<lceil>hours\<rceil>;
                      gap = int64 (rec - headcount_used r)
                  in Some (row.extend (r\<lparr>uph := u, backlog_in := b\<rparr>)
                             (staffing_row.fields req cap hours rec gap
                                (labor_cost wage_per_hour (max 0 gap))))))))"

text \<open>
  \<^verbatim>\<open>np.ceil(...).astype(int)\<close> on the column raises when any entry is not finite; then no
  table is returned.
\<close>

definition compute_staffing_recommendations ::
  "row list \<Rightarrow> rat \<Rightarrow> (string \<rightharpoonup> rat) \<Rightarrow> wage \<Rightarrow> error + staffing_row list" where
  "compute_staffing_recommendations df service_target uph_by_step wage_per_hour =
     (let df' = sort_values_step_timestamp df in
      case those (map2 (staffing_columns service_target uph_by_step wage_per_hour) df'
                    (shifted_backlog df')) of
        None \<Rightarrow> Inl (ValueError ''Cannot convert non-finite values (NA or inf) to integer'')
      | Some out \<Rightarrow> Inr out)"

text \<open>The recomputation stage of \<^verbatim>\<open>compute_capacity_metrics\<close>: utilization, then service level.\<close>

definition recompute :: "row list \<Rightarrow> row list" where
  "recompute df = compute_service_level (compute_utilization df)"

text \<open>One hour of the step \<open>receive\<close>: demand 100, capacity 80, 80 processed, 20 left over.\<close>

definition scenario_row :: row where
  "scenario_row =
     \<lparr> timestamp = 0, step = ''receive'', demand_units = 100, capacity_units = 80,
       processed_units = 80, backlog_units = 20, utilization = 1, cycle_time_min = 5, uph = 10,
       labor_hours_used = 8, headcount_used = 8, date = 0, backlog_in = 0, total_demand = 0,
       service_level_hourly = 0, throughput_loss_units = 0 \<rparr>"

text \<open>Three hourly rows of one day: two hours of \<open>receive\<close> and one of \<open>pick\<close>.\<close>

definition day_rows :: "row list" where
  "day_rows =
     [scenario_row,
      scenario_row\<lparr>timestamp := 1, demand_units := 50, processed_units := 70, backlog_units := 0,
                   utilization := 1 / 2, headcount_used := 7\<rparr>,
      scenario_row\<lparr>step := ''pick''\<rparr>]"

text \<open>Three schemas: all columns numeric; two columns of the wrong type; two columns missing
  and one of the wrong type.\<close>

definition full_schema :: "(string \<times> dtype) list" where
  "full_schema = map (\<lambda>c. (c, Float64)) required_columns"

definition two_bad_columns :: "(string \<times> dtype) list" where
  "two_bad_columns =
     [(''timestamp'', Object), (''step'', Object), (''demand_units'', Object),
      (''capacity_units'', Object), (''processed_units'', Float64),
      (''backlog_units'', Float64), (''utilization'', Float64), (''cycle_time_min'', Float64),
      (''uph'', Float64), (''labor_hours_used'', Float64), (''headcount_used'', Int64)]"

definition two_missing_columns :: "(string \<times> dtype) list" where
  "two_missing_columns =
     [(''timestamp'', Object), (''step'', Object), (''demand_units'', Object),
      (''capacity_units'', Float64), (''processed_units'', Float64),
      (''backlog_units'', Float64), (''utilization'', Float64), (''cycle_time_min'', Float64),
      (''labor_hours_used'', Float64)]"

text \<open>A seasonality profile and a day-of-week profile for concrete runs.\<close>

definition flat_seasonality :: hourly_seasonality where
  "flat_seasonality = \<lparr> peak_hours = [10, 11], peak_multiplier = 2, off_peak_multiplier = 1 \<rparr>"

definition flat_week :: day_of_week where
  "flat_week = \<lparr> weekend_multiplier = 1 / 2, weekday_multiplier = 1 \<rparr>"

text \<open>A generator whose draws depend on the seed: the \<open>k\<close>-th normal draw after
  \<^verbatim>\<open>seed(s)\<close> is \<open>(s + k) / 1000\<close>.\<close>

definition seeded_random :: "nat numpy_random" where
  "seeded_random =
     \<lparr> rng_seed = (\<lambda>s. nat s), rng_standard_normal = (\<lambda>g. (of_nat g / 1000, Suc g)),
       rng_random = (\<lambda>g. (1 / 2, Suc g)), rng_sample = (\<lambda>g n k. ([0..<k], Suc g)) \<rparr>"

text \<open>Tables for concrete runs of the detector and of the recommender: two hours of
  \<open>receive\<close> with a rising backlog at high utilization; one idle hour; one hour to staff.\<close>

definition bottleneck_rows :: "row list" where
  "bottleneck_rows =
     [scenario_row\<lparr>timestamp := 1, backlog_units := 5, utilization := 24 / 25\<rparr>,
      scenario_row\<lparr>timestamp := 0, backlog_units := 0, utilization := 1 / 2\<rparr>]"

definition idle_rows :: "row list" where
  "idle_rows = [scenario_row\<lparr>utilization := 1 / 2\<rparr>]"

definition staffing_rows :: "row list" where
  "staffing_rows =
     [scenario_row\<lparr>demand_units := 95, processed_units := 90, backlog_units := 5,
                   headcount_used := 9\<rparr>]"

text \<open>One hour with a demand of \<open>10^19\<close> units, beyond what an int64 headcount can hold.\<close>

definition huge_rows :: "row list" where
  "huge_rows = [scenario_row\<lparr>demand_units := 10 ^ 19, backlog_units := 0\<rparr>]"

text \<open>Two steps in one hour, both below the threshold and without throughput loss.\<close>

definition quiet_rows :: "row list" where
  "quiet_rows =
     [scenario_row\<lparr>utilization := 1 / 2\<rparr>,
      scenario_row\<lparr>step := ''pick'', utilization := 9 / 10\<rparr>]"

text \<open>The hour to staff, with twelve people already on it.\<close>

definition overstaffed_rows :: "row list" where
  "overstaffed_rows =
     [scenario_row\<lparr>demand_units := 95, processed_units := 90, backlog_units := 5,
                   headcount_used := 12\<rparr>]"

section \<open>Properties of the step simulator\<close>

lemma backlog_loop_append:
  "backlog_loop sd cap (xs @ ys) st = backlog_loop sd cap ys (backlog_loop sd cap xs st)"
proof (induction xs arbitrary: st)
  case Nil
  show ?case by simp
next
  case (Cons i xs)
  obtain pa ba where st: "st = (pa, ba)" by (cases st)
  show ?case unfolding st by (simp add: Let_def Cons.IH)
qed

lemma backlog_loop_invariant:
  assumes "length pa0 = n" "length ba0 = n" "k \<le> n"
      and "backlog_loop sd cap [0..<k] (pa0, ba0) = (pa, ba)"
  shows "length pa = n \<and> length ba = n \<and> recurrence_upto sd cap pa ba k"
  using assms(3,4)
proof (induction k arbitrary: pa ba)
  case 0
  then show ?case using assms(1,2) by (simp add: recurrence_upto_def)
next
  case (Suc k)
  obtain pa1 ba1 where mid: "backlog_loop sd cap [0..<k] (pa0, ba0) = (pa1, ba1)"
    by (cases "backlog_loop sd cap [0..<k] (pa0, ba0)")
  from Suc.prems have "k \<le> n" by simp
  from Suc.IH [OF this mid]
  have len: "length pa1 = n" "length ba1 = n" and rec: "recurrence_upto sd cap pa1 ba1 k"
    by simp_all
  define bin where "bin = (if k > 0 then ba1 ! (k - 1) else 0)"
  define p where "p = min (sd ! k + bin) (cap ! k)"
  from Suc.prems(2) mid
  have pa: "pa = pa1[k := p]" and ba: "ba = ba1[k := max 0 (sd ! k + bin - p)]"
    by (simp_all add: backlog_loop_append Let_def bin_def p_def)
  have kn: "k < n" using Suc.prems(1) by simp
  have "recurrence_upto sd cap pa ba (Suc k)"
    unfolding recurrence_upto_def
  proof (intro allI impI)
    fix t assume t: "t < Suc k"
    show "pa ! t = min (sd ! t + (if t > 0 then ba ! (t - 1) else 0)) (cap ! t) \<and>
          ba ! t = max 0 (sd ! t + (if t > 0 then ba ! (t - 1) else 0) - pa ! t)"
    proof (cases "t = k")
      case True
      have a: "pa ! k = p" using kn len by (simp add: pa)
      have b: "ba ! k = max 0 (sd ! k + bin - p)" using kn len by (simp add: ba)
      have c: "(if k > 0 then ba ! (k - 1) else 0) = bin"
        by (simp add: ba bin_def)
      show ?thesis unfolding True a b c by (simp add: p_def)
    next
      case False
      with t have tk: "t < k" by simp
      have a: "pa ! t = pa1 ! t" using tk by (simp add: pa)
      have b: "ba ! t = ba1 ! t" using tk by (simp add: ba)
      have c: "(if t > 0 then ba ! (t - 1) else 0) = (if t > 0 then ba1 ! (t - 1) else 0)"
        using tk by (simp add: ba)
      from rec tk have
        "pa1 ! t = min (sd ! t + (if t > 0 then ba1 ! (t - 1) else 0)) (cap ! t) \<and>
         ba1 ! t = max 0 (sd ! t + (if t > 0 then ba1 ! (t - 1) else 0) - pa1 ! t)"
        unfolding recurrence_upto_def by blast
      then show ?thesis unfolding a b c .
    qed
  qed
  then show ?case using len by (simp add: pa ba)
qed


lemma make_row_sel [simp]:
  "demand_units (make_row stp u ctb cmm ts d c p b) = d"
  "capacity_units (make_row stp u ctb cmm ts d c p b) = c"
  "processed_units (make_row stp u ctb cmm ts d c p b) = p"
  "backlog_units (make_row stp u ctb cmm ts d c p b) = b"
  "timestamp (make_row stp u ctb cmm ts d c p b) = ts"
  "step (make_row stp u ctb cmm ts d c p b) = stp"
  by (simp_all add: make_row_def Let_def)

lemma generate_step_data_Inr:
  assumes "generate_step_data R py_hash demand_df stp cb cv dp ds u ctb cmm rs = Inr out"
  obtains step_demand capacity pa ba where
    "backlog_loop step_demand capacity [0..<length demand_df]
       (replicate (length demand_df) 0, replicate (length demand_df) 0) = (pa, ba)"
    "out = map (\<lambda>i. make_row stp u ctb cmm (fst (demand_df ! i)) (step_demand ! i)
                        (capacity ! i) (pa ! i) (ba ! i)) [0..<length demand_df]"
  using assms unfolding generate_step_data_def Let_def
  by (auto split: sum.splits prod.splits if_splits)


text \<open>
  C2. In every table that \<^verbatim>\<open>generate_step_data\<close> returns, at every hour index \<open>t\<close>:
  \<open>processed_units[t] = min(demand_units[t] + backlog_in[t], capacity_units[t])\<close> and
  \<open>backlog_units[t] = max(0, demand_units[t] + backlog_in[t] - processed_units[t])\<close>, where
  \<open>backlog_in[t]\<close> is \<open>backlog_units[t-1]\<close> for \<open>t > 0\<close> and 0 for the first hour; hence
  \<open>processed_units[t] \<le> demand_units[t] + backlog_units[t-1]\<close> for \<open>t > 0\<close>. The table has
  one row per hour of the demand sequence.
\<close>

theorem generate_step_data_backlog_recurrence:
  assumes "generate_step_data R py_hash demand_df stp cb cv dp ds u ctb cmm rs = Inr out"
    and "t < length out"
  shows "length out = length demand_df \<and>
         processed_units (out ! t) =
           min (demand_units (out ! t) + backlog_in_at out t) (capacity_units (out ! t)) \<and>
         backlog_units (out ! t) =
           max 0 (demand_units (out ! t) + backlog_in_at out t - processed_units (out ! t)) \<and>
         (t > 0 \<longrightarrow>
            processed_units (out ! t) \<le> demand_units (out ! t) + backlog_units (out ! (t - 1)))"
proof -
  let ?n = "length demand_df"
  from assms(1) obtain sd cap pa ba where
    loop: "backlog_loop sd cap [0..<?n] (replicate ?n 0, replicate ?n 0) = (pa, ba)" and
    out: "out = map (\<lambda>i. make_row stp u ctb cmm (fst (demand_df ! i)) (sd ! i)
                        (cap ! i) (pa ! i) (ba ! i)) [0..<?n]"
    by (rule generate_step_data_Inr)
  have len: "length out = ?n" by (simp add: out)
  with assms(2) have tn: "t < ?n" by simp
  have "recurrence_upto sd cap pa ba ?n"
    using backlog_loop_invariant [OF _ _ _ loop, of ?n] by simp
  with tn have
    p: "pa ! t = min (sd ! t + (if t > 0 then ba ! (t - 1) else 0)) (cap ! t)" and
    b: "ba ! t = max 0 (sd ! t + (if t > 0 then ba ! (t - 1) else 0) - pa ! t)"
    unfolding recurrence_upto_def by blast+
  have bin: "backlog_in_at out t = (if t > 0 then ba ! (t - 1) else 0)"
  proof (cases "t > 0")
    case True
    then have "t - 1 < ?n" using tn by simp
    then show ?thesis using True by (simp add: backlog_in_at_def out del: One_nat_def)
  next
    case False
    then show ?thesis by (simp add: backlog_in_at_def)
  qed
  have sel: "processed_units (out ! t) = pa ! t" "backlog_units (out ! t) = ba ! t"
    "demand_units (out ! t) = sd ! t" "capacity_units (out ! t) = cap ! t"
    using tn by (simp_all add: out)
  have le: "t > 0 \<longrightarrow> processed_units (out ! t) \<le> demand_units (out ! t) + backlog_units (out ! (t - 1))"
  proof
    assume "t > 0"
    then have "backlog_in_at out t = backlog_units (out ! (t - 1))"
      by (simp add: backlog_in_at_def)
    moreover have "pa ! t \<le> sd ! t + backlog_in_at out t"
      unfolding bin by (subst p) simp
    ultimately show "processed_units (out ! t) \<le> demand_units (out ! t) + backlog_units (out ! (t - 1))"
      by (simp add: sel)
  qed
  show ?thesis
    unfolding sel bin using len p b le sel bin by simp
qed


theorem generate_step_data_backlog_recurrence_witness:
  "generate_step_data constant_random (\<lambda>s. 7) [(0, 100), (1, 50)] ''receive'' (16 / 15)
      (1 / 10) (1 / 20) (1 / 2) 10 5 2 42 =
     Inr [make_row ''receive'' 10 5 2 0 100 80 80 20, make_row ''receive'' 10 5 2 1 50 80 70 0] \<and>
   (1::nat) < length [make_row ''receive'' 10 5 2 0 100 80 80 20,
                      make_row ''receive'' 10 5 2 1 50 80 70 0] \<and>
   processed_units (make_row ''receive'' 10 5 2 1 50 80 70 0) = min (50 + 20) 80 \<and>
   backlog_units (make_row ''receive'' 10 5 2 1 50 80 70 0) = max 0 (50 + 20 - 70)"
proof -
  let ?out = "[make_row ''receive'' 10 5 2 0 100 80 80 20, make_row ''receive'' 10 5 2 1 50 80 70 0]"
  have run: "generate_step_data constant_random (\<lambda>s. 7) [(0, 100), (1, 50)] ''receive'' (16 / 15)
      (1 / 10) (1 / 20) (1 / 2) 10 5 2 42 = Inr ?out"
    by code_simp
  have t: "(1::nat) < length ?out" by simp
  from generate_step_data_backlog_recurrence [OF run t]
  show ?thesis using run by (simp add: backlog_in_at_def)
qed

section \<open>Properties of the metrics aggregator\<close>

lemma length_groupby_shift [simp]: "length (groupby_shift seen kvs) = length kvs"
  by (induction kvs arbitrary: seen) auto

lemma length_shifted_backlog [simp]: "length (shifted_backlog df) = length df"
  by (simp add: shifted_backlog_def)

lemma service_level_row_sel [simp]:
  "step (service_level_row r b) = step r"
  "timestamp (service_level_row r b) = timestamp r"
  "backlog_units (service_level_row r b) = backlog_units r"
  "demand_units (service_level_row r b) = demand_units r"
  "processed_units (service_level_row r b) = processed_units r"
  "capacity_units (service_level_row r b) = capacity_units r"
  "utilization (service_level_row r b) = utilization r"
  by (simp_all add: service_level_row_def Let_def)

lemma service_level_row_idem: "service_level_row (service_level_row r b) b = service_level_row r b"
  by (simp add: service_level_row_def Let_def)

lemma map_map2_same_length:
  "length ys = length xs \<Longrightarrow> (\<And>x y. h (f x y) = h x) \<Longrightarrow> map h (map2 f xs ys) = map h xs"
  by (induction xs ys rule: list_induct2') auto

lemma map2_map2_idem:
  "(\<And>x y. f (f x y) y = f x y) \<Longrightarrow> map2 f (map2 f xs ys) ys = map2 f xs ys"
  by (induction xs ys rule: list_induct2') auto

lemma sorted_sort_values [simp]:
  "sorted (map (\<lambda>r. (step r, timestamp r)) (sort_values_step_timestamp df))"
  by (simp add: sort_values_step_timestamp_def)

lemma shifted_backlog_cong:
  "map (\<lambda>r. (step r, backlog_units r)) df1 = map (\<lambda>r. (step r, backlog_units r)) df2 \<Longrightarrow>
   shifted_backlog df1 = shifted_backlog df2"
  by (simp add: shifted_backlog_def)

lemma compute_service_level_sorted_id:
  assumes "sorted (map (\<lambda>r. (step r, timestamp r)) df)"
  shows "compute_service_level df = map2 service_level_row df (shifted_backlog df)"
  using assms by (simp add: compute_service_level_def sort_values_step_timestamp_def sort_key_id_if_sorted Let_def)

lemma compute_utilization_fixed:
  assumes "\<forall>r\<in>set df. utilization r = clip 0 1 (processed_units r / (capacity_units r + eps))"
  shows "compute_utilization df = df"
  unfolding compute_utilization_def using assms by (simp add: map_idI)

lemma set_sort_values [simp]: "set (sort_values_step_timestamp df) = set df"
  by (simp add: sort_values_step_timestamp_def)

text \<open>
  C7. The recomputation stage is idempotent: applying \<^verbatim>\<open>compute_utilization\<close> followed by
  \<^verbatim>\<open>compute_service_level\<close> twice yields the same table (the same rows in the same order,
  with the same value in every column) as applying the pair once.
\<close>

theorem recompute_idempotent: "recompute (recompute df) = recompute df"
proof -
  define s where "s = sort_values_step_timestamp (compute_utilization df)"
  define B where "B = shifted_backlog s"
  have len: "length B = length s" by (simp add: B_def)
  have once: "recompute df = map2 service_level_row s B"
    by (simp add: recompute_def compute_service_level_def s_def B_def Let_def)
  have util_s: "\<forall>r\<in>set s. utilization r = clip 0 1 (processed_units r / (capacity_units r + eps))"
    by (auto simp: s_def compute_utilization_def)
  have "\<forall>r\<in>set (map2 service_level_row s B).
          utilization r = clip 0 1 (processed_units r / (capacity_units r + eps))"
    using util_s by (auto simp: set_zip)
  then have u: "compute_utilization (recompute df) = recompute df"
    unfolding once by (rule compute_utilization_fixed)
  have keys: "map (\<lambda>r. (step r, timestamp r)) (map2 service_level_row s B)
                = map (\<lambda>r. (step r, timestamp r)) s"
    using len by (rule map_map2_same_length) simp
  have "sorted (map (\<lambda>r. (step r, timestamp r)) s)" by (simp add: s_def)
  with keys have srt: "sorted (map (\<lambda>r. (step r, timestamp r)) (recompute df))"
    by (simp add: once)
  have "map (\<lambda>r. (step r, backlog_units r)) (map2 service_level_row s B)
          = map (\<lambda>r. (step r, backlog_units r)) s"
    using len by (rule map_map2_same_length) simp
  then have sh: "shifted_backlog (recompute df) = B"
    unfolding once B_def by (rule shifted_backlog_cong)
  have "recompute (recompute df) = compute_service_level (recompute df)"
    by (simp add: recompute_def [of "recompute df"] u)
  also have "\<dots> = map2 service_level_row (recompute df) B"
    using compute_service_level_sorted_id [OF srt] by (simp add: sh)
  also have "\<dots> = map2 service_level_row s B"
    unfolding once by (rule map2_map2_idem) (rule service_level_row_idem)
  finally show ?thesis by (simp add: once)
qed


text \<open>
  C1 fails on the code. The source clips the denominator and not the ratio, so for the row
  with demand 100, no carried-in backlog and 80 units processed, \<^verbatim>\<open>compute_service_level\<close>
  sets \<open>service_level_hourly\<close> to 80, which exceeds 1, where the specified value
  \<open>processed / (total_demand + \<epsilon>)\<close> clamped to \<open>[0,1]\<close> is \<open>80000000 / 100000001\<close>.
\<close>

theorem compute_service_level_exceeds_one:
  "map service_level_hourly (compute_service_level [scenario_row]) = [80] \<and>
   map backlog_in (compute_service_level [scenario_row]) = [0] \<and>
   spec_service_level (processed_units scenario_row) (demand_units scenario_row) 0
     = 80000000 / 100000001 \<and>
   \<not> service_level_hourly (compute_service_level [scenario_row] ! 0) \<le> 1"
  by (simp add: compute_service_level_def sort_values_step_timestamp_def shifted_backlog_def
        scenario_row_def service_level_row_def fillna0_def clip_def eps_def
        spec_service_level_def)




section \<open>Properties of schema validation\<close>

text \<open>
  C9 as stated fails: when both \<open>demand_units\<close> and \<open>capacity_units\<close> are present and not
  numeric, the error names \<open>demand_units\<close> only, so it does not name every invalid column.
\<close>

theorem validate_schema_first_failure_counterexample:
  "validate_schema two_bad_columns = Inl (MustBeNumeric ''demand_units'') \<and>
   ''capacity_units'' \<in> non_numeric_columns two_bad_columns \<and>
   \<not> (missing_columns two_bad_columns \<union> non_numeric_columns two_bad_columns
        \<subseteq> named_columns (MustBeNumeric ''demand_units''))"
  by code_simp

text \<open>
  C9, amended. \<^verbatim>\<open>validate_schema\<close> succeeds exactly when all required columns are present
  and \<open>demand_units\<close>, \<open>capacity_units\<close> and \<open>processed_units\<close> are numeric. When required
  columns are missing, the error names every missing column at once (and nothing else).
  When none is missing, the error names only the first of \<open>demand_units\<close>, \<open>capacity_units\<close>,
  \<open>processed_units\<close>, in this order, that is not numeric.
\<close>

theorem validate_schema_cases:
  "(validate_schema df = Inr () \<longleftrightarrow>
      set required_columns \<subseteq> set (map fst df) \<and> numeric_column df ''demand_units'' \<and>
      numeric_column df ''capacity_units'' \<and> numeric_column df ''processed_units'') \<and>
   (missing_columns df \<noteq> {} \<longrightarrow>
      validate_schema df = Inl (MissingColumns (missing_columns df))) \<and>
   (missing_columns df = {} \<longrightarrow>
      validate_schema df =
        (case filter (\<lambda>c. \<not> numeric_column df c) type_checked_columns of
           [] \<Rightarrow> Inr ()
         | c # _ \<Rightarrow> Inl (MustBeNumeric c)))"
proof (intro conjI impI)
  show "validate_schema df = Inr () \<longleftrightarrow>
      set required_columns \<subseteq> set (map fst df) \<and> numeric_column df ''demand_units'' \<and>
      numeric_column df ''capacity_units'' \<and> numeric_column df ''processed_units''"
    unfolding validate_schema_def Let_def by (simp add: Diff_eq_empty_iff)
next
  assume "missing_columns df \<noteq> {}"
  then show "validate_schema df = Inl (MissingColumns (missing_columns df))"
    unfolding validate_schema_def Let_def missing_columns_def by simp
next
  assume "missing_columns df = {}"
  then show "validate_schema df =
        (case filter (\<lambda>c. \<not> numeric_column df c) type_checked_columns of
           [] \<Rightarrow> Inr ()
         | c # _ \<Rightarrow> Inl (MustBeNumeric c))"
    unfolding validate_schema_def Let_def missing_columns_def type_checked_columns_def by simp
qed

theorem validate_schema_cases_witness:
  "missing_columns two_missing_columns \<noteq> {} \<and>
   validate_schema two_missing_columns = Inl (MissingColumns {''uph'', ''headcount_used''}) \<and>
   missing_columns two_bad_columns = {} \<and>
   validate_schema two_bad_columns = Inl (MustBeNumeric ''demand_units'') \<and>
   validate_schema full_schema = Inr ()"
proof -
  have m1: "missing_columns two_missing_columns = {''uph'', ''headcount_used''}" by code_simp
  then have h1: "missing_columns two_missing_columns \<noteq> {}" by simp
  have h2: "missing_columns two_bad_columns = {}" by code_simp
  have f: "filter (\<lambda>c. \<not> numeric_column two_bad_columns c) type_checked_columns
             = [''demand_units'', ''capacity_units'']" by code_simp
  have h3: "set required_columns \<subseteq> set (map fst full_schema) \<and>
      numeric_column full_schema ''demand_units'' \<and>
      numeric_column full_schema ''capacity_units'' \<and>
      numeric_column full_schema ''processed_units''" by code_simp
  from validate_schema_cases [of two_missing_columns] h1 m1
  have a: "validate_schema two_missing_columns = Inl (MissingColumns {''uph'', ''headcount_used''})"
    by simp
  from validate_schema_cases [of two_bad_columns] h2 f
  have b: "validate_schema two_bad_columns = Inl (MustBeNumeric ''demand_units'')"
    by simp
  from validate_schema_cases [of full_schema] h3
  have c: "validate_schema full_schema = Inr ()" by blast
  show ?thesis using h1 a h2 b c by simp
qed

section \<open>Properties of the demand generator\<close>

lemma length_hours_loop:
  "length (fst (hours_loop R bdm hs dm pm cd hours g)) = length hours"
proof (induction hours arbitrary: g)
  case Nil
  show ?case by simp
next
  case (Cons hour hours)
  obtain z g' where z: "rng_standard_normal R g = (z, g')"
    by (cases "rng_standard_normal R g")
  obtain rest g'' where r: "hours_loop R bdm hs dm pm cd hours g' = (rest, g'')"
    by (cases "hours_loop R bdm hs dm pm cd hours g'")
  from Cons.IH [of g'] r have "length rest = length hours" by simp
  then show ?case by (simp add: Let_def z r)
qed

lemma length_days_loop:
  "length (fst (days_loop R start bdm hs dow pdi pm days g)) = 24 * length days"
proof (induction days arbitrary: g)
  case Nil
  show ?case by simp
next
  case (Cons day days)
  obtain today g' where h: "hours_loop R bdm hs
      (if weekday (start + int day) \<ge> 5 then weekend_multiplier dow else weekday_multiplier dow)
      (if day \<in> set pdi then pm else 1) (start + int day) [0..<24] g = (today, g')"
    by (cases "hours_loop R bdm hs
      (if weekday (start + int day) \<ge> 5 then weekend_multiplier dow else weekday_multiplier dow)
      (if day \<in> set pdi then pm else 1) (start + int day) [0..<24] g")
  have "length today = 24"
    using length_hours_loop [of R bdm hs _ _ "start + int day" "[0..<24]" g] h
    by (metis fst_conv length_upt diff_zero)
  obtain rest g'' where r: "days_loop R start bdm hs dow pdi pm days g' = (rest, g'')"
    by (cases "days_loop R start bdm hs dow pdi pm days g'")
  from Cons.IH [of g'] r have "length rest = 24 * length days" by simp
  with \<open>length today = 24\<close> show ?case by (simp add: Let_def h r)
qed

text \<open>
  C10. \<^verbatim>\<open>generate_hourly_demand\<close> raises when \<open>promo_days\<close> exceeds \<open>num_days\<close>; whenever it
  returns a table, \<open>0 \<le> promo_days \<le> num_days\<close> holds and the table has \<open>24 \<times> num_days\<close>
  rows; and under \<open>0 \<le> promo_days \<le> num_days\<close> (with a seed that NumPy accepts) it does
  return a table.
\<close>

theorem generate_hourly_demand_promo_days_precondition:
  "(promo_days > num_days \<longrightarrow>
      (\<exists>e. generate_hourly_demand R start num_days bdm hs dow promo_days pm random_state = Inl e)) \<and>
   (\<forall>out. generate_hourly_demand R start num_days bdm hs dow promo_days pm random_state = Inr out
      \<longrightarrow> 0 \<le> promo_days \<and> promo_days \<le> num_days \<and> int (length out) = 24 * num_days) \<and>
   (0 \<le> promo_days \<and> promo_days \<le> num_days \<and> 0 \<le> random_state \<and> random_state < 2 ^ 32 \<longrightarrow>
      (\<exists>out. generate_hourly_demand R start num_days bdm hs dow promo_days pm random_state = Inr out))"
proof (intro conjI impI allI)
  assume "promo_days > num_days"
  then show "\<exists>e. generate_hourly_demand R start num_days bdm hs dow promo_days pm random_state = Inl e"
    by (auto simp: generate_hourly_demand_def np_random_choice_def split: sum.splits)
next
  fix out
  assume r: "generate_hourly_demand R start num_days bdm hs dow promo_days pm random_state = Inr out"
  then obtain g0 pdi g1 where
    c: "np_random_choice R num_days promo_days g0 = Inr (pdi, g1)" and
    out: "out = fst (days_loop R start bdm hs dow pdi pm [0..<nat num_days] g1)"
    by (auto simp: generate_hourly_demand_def split: sum.splits)
  from c have p: "0 \<le> promo_days \<and> promo_days \<le> num_days"
    by (auto simp: np_random_choice_def split: if_splits)
  then have "0 \<le> num_days" by simp
  then have "int (length out) = 24 * num_days"
    by (simp add: out length_days_loop)
  with p show "0 \<le> promo_days" "promo_days \<le> num_days" "int (length out) = 24 * num_days"
    by simp_all
next
  assume "0 \<le> promo_days \<and> promo_days \<le> num_days \<and> 0 \<le> random_state \<and> random_state < 2 ^ 32"
  then show "\<exists>out. generate_hourly_demand R start num_days bdm hs dow promo_days pm random_state = Inr out"
    by (auto simp: generate_hourly_demand_def np_random_choice_def np_random_seed_def
             split: sum.splits prod.splits)
qed

theorem generate_hourly_demand_promo_days_precondition_witness:
  "(2::int) > 1 \<and>
   generate_hourly_demand constant_random 738000 1 2400 flat_seasonality flat_week 2 (3 / 2) 42
     = Inl (ValueError ''Cannot take a larger sample than population when replace=False'') \<and>
   (0::int) \<le> 1 \<and> (1::int) \<le> 2 \<and> (0::int) \<le> 42 \<and> (42::int) < 2 ^ 32 \<and>
   (\<exists>out. generate_hourly_demand constant_random 738000 2 2400 flat_seasonality flat_week 1
            (3 / 2) 42 = Inr out \<and> int (length out) = 24 * 2)"
proof -
  have a: "generate_hourly_demand constant_random 738000 1 2400 flat_seasonality flat_week 2
             (3 / 2) 42
           = Inl (ValueError ''Cannot take a larger sample than population when replace=False'')"
    by code_simp
  have h: "(0::int) \<le> 1 \<and> (1::int) \<le> 2 \<and> (0::int) \<le> 42 \<and> (42::int) < 2 ^ 32" by simp
  note inst = generate_hourly_demand_promo_days_precondition
               [of 2 1 constant_random 738000 2400 flat_seasonality flat_week "3 / 2" 42]
  from inst h obtain out where
    out: "generate_hourly_demand constant_random 738000 2 2400 flat_seasonality flat_week 1
            (3 / 2) 42 = Inr out"
    by blast
  with inst have "int (length out) = 24 * 2" by blast
  with out a h show ?thesis by simp
qed

section \<open>Reproducibility of the step simulator\<close>

lemma seeded_sel [simp]:
  "rng_seed seeded_random = (\<lambda>s. nat s)"
  "rng_standard_normal seeded_random = (\<lambda>g. (of_nat g / 1000, Suc g))"
  "rng_random seeded_random = (\<lambda>g. (1 / 2, Suc g))"
  by (simp_all add: seeded_random_def)

text \<open>
  C3 fails on the code for the step simulator. The seed of a step is
  \<^verbatim>\<open>random_state + hash(step) % 1000\<close>, and Python salts the hash of a string anew in every
  interpreter process. With the same step name, the same \<open>random_state\<close> and the same
  parameters, two processes whose hashes of \<open>pick\<close> are 17 and 18 seed the generator with 59
  and with 60, and with a generator whose draws depend on the seed the two output tables
  differ.
\<close>

theorem step_seed_depends_on_hash:
  "step_seed (\<lambda>s. 17) 42 ''pick'' = 59 \<and> step_seed (\<lambda>s. 18) 42 ''pick'' = 60 \<and>
   map_sum id (map demand_units)
     (generate_step_data seeded_random (\<lambda>s. 17) [(0, 100)] ''pick'' 1 (1 / 10) (1 / 20) (1 / 2)
        10 5 2 42) = Inr [381121 / 4000] \<and>
   map_sum id (map demand_units)
     (generate_step_data seeded_random (\<lambda>s. 18) [(0, 100)] ''pick'' 1 (1 / 10) (1 / 20) (1 / 2)
        10 5 2 42) = Inr [19057 / 200] \<and>
   generate_step_data seeded_random (\<lambda>s. 17) [(0, 100)] ''pick'' 1 (1 / 10) (1 / 20) (1 / 2)
        10 5 2 42
     \<noteq> generate_step_data seeded_random (\<lambda>s. 18) [(0, 100)] ''pick'' 1 (1 / 10) (1 / 20) (1 / 2)
        10 5 2 42"
proof -
  have a: "map_sum id (map demand_units)
     (generate_step_data seeded_random (\<lambda>s. 17) [(0, 100)] ''pick'' 1 (1 / 10) (1 / 20) (1 / 2)
        10 5 2 42) = Inr [381121 / 4000]"
    by (simp add: step_seed_def generate_step_data_def np_random_seed_def step_lag_def mean_def
          apply_downtime_def np_random_normal_size_def Let_def)
  have b: "map_sum id (map demand_units)
     (generate_step_data seeded_random (\<lambda>s. 18) [(0, 100)] ''pick'' 1 (1 / 10) (1 / 20) (1 / 2)
        10 5 2 42) = Inr [19057 / 200]"
    by (simp add: step_seed_def generate_step_data_def np_random_seed_def step_lag_def mean_def
          apply_downtime_def np_random_normal_size_def Let_def)
  have c: "generate_step_data seeded_random (\<lambda>s. 17) [(0, 100)] ''pick'' 1 (1 / 10) (1 / 20)
        (1 / 2) 10 5 2 42
     \<noteq> generate_step_data seeded_random (\<lambda>s. 18) [(0, 100)] ''pick'' 1 (1 / 10) (1 / 20) (1 / 2)
        10 5 2 42"
  proof
    assume "generate_step_data seeded_random (\<lambda>s. 17) [(0, 100)] ''pick'' 1 (1 / 10) (1 / 20)
        (1 / 2) 10 5 2 42
     = generate_step_data seeded_random (\<lambda>s. 18) [(0, 100)] ''pick'' 1 (1 / 10) (1 / 20) (1 / 2)
        10 5 2 42"
    with a b show False by simp
  qed
  show ?thesis using a b c by (simp add: step_seed_def)
qed

section \<open>The previous-hour backlog on a sorted table\<close>

text \<open>
  On a table sorted by step, the group-wise shift is the value of the row just above when
  that row is of the same step, and missing otherwise.
\<close>

lemma groupby_shift_sorted:
  assumes "sorted (map fst kvs)" "i < length kvs"
  shows "groupby_shift seen kvs ! i =
           (if i > 0 \<and> fst (kvs ! (i - 1)) = fst (kvs ! i) then Some (snd (kvs ! (i - 1)))
            else seen (fst (kvs ! i)))"
  using assms
proof (induction kvs arbitrary: seen i)
  case Nil
  then show ?case by simp
next
  case (Cons kv kvs)
  obtain k v where kv: "kv = (k, v)" by (cases kv)
  show ?case
  proof (cases i)
    case 0
    then show ?thesis by (simp add: kv)
  next
    case (Suc j)
    with Cons.prems have j: "j < length kvs" and srt: "sorted (map fst kvs)"
      and le: "\<forall>x\<in>set kvs. k \<le> fst x"
      by (auto simp: kv)
    have IH: "groupby_shift (seen(k \<mapsto> v)) kvs ! j =
           (if j > 0 \<and> fst (kvs ! (j - 1)) = fst (kvs ! j) then Some (snd (kvs ! (j - 1)))
            else (seen(k \<mapsto> v)) (fst (kvs ! j)))"
      using Cons.IH [OF srt j] .
    show ?thesis
    proof (cases j)
      case 0
      then show ?thesis using IH Suc by (simp add: kv)
    next
      case (Suc j')
      have a: "(kv # kvs) ! (i - 1) = kvs ! (j - 1)" "(kv # kvs) ! i = kvs ! j"
        using \<open>i = Suc j\<close> Suc by simp_all
      show ?thesis
      proof (cases "fst (kvs ! (j - 1)) = fst (kvs ! j)")
        case True
        then show ?thesis using IH \<open>i = Suc j\<close> Suc a by (simp add: kv)
      next
        case False
        have "j - 1 < length kvs" using j by simp
        then have "k \<le> fst (kvs ! (j - 1))" using le by (meson nth_mem)
        moreover have "fst (kvs ! (j - 1)) \<le> fst (kvs ! j)"
          using srt j Suc sorted_nth_mono [of "map fst kvs" "j - 1" j] by simp
        ultimately have "k \<noteq> fst (kvs ! j)" using False by auto
        then show ?thesis using IH \<open>i = Suc j\<close> Suc a False by (simp add: kv)
      qed
    qed
  qed
qed

lemma sorted_step_sort_values: "sorted (map step (sort_values_step_timestamp df))"
proof -
  have "sorted (map (\<lambda>r. (step r, timestamp r)) (sort_values_step_timestamp df))"
    by (simp add: sort_values_step_timestamp_def)
  then have "sorted_wrt (\<lambda>a b. (step a, timestamp a) \<le> (step b, timestamp b))
               (sort_values_step_timestamp df)"
    by (simp add: sorted_map)
  then have "sorted_wrt (\<lambda>a b. step a \<le> step b) (sort_values_step_timestamp df)"
    by (rule sorted_wrt_mono_rel [rotated]) auto
  then show ?thesis by (simp add: sorted_map)
qed

lemma shifted_backlog_sorted:
  assumes "sorted (map step df)" "i < length df"
  shows "shifted_backlog df ! i = previous_backlog df i"
proof -
  let ?kvs = "map (\<lambda>r. (step r, backlog_units r)) df"
  have s: "sorted (map fst ?kvs)" using assms(1) by (simp add: o_def)
  have i: "i < length ?kvs" using assms(2) by simp
  have p: "i - 1 < length df" using assms(2) by simp
  show ?thesis
    using groupby_shift_sorted [OF s i, of Map.empty] assms(2) p
    by (simp add: shifted_backlog_def previous_backlog_def fillna0_def del: One_nat_def)
qed

lemma backlog_diff_sorted:
  assumes "sorted (map step df)" "i < length df"
  shows "backlog_diff df ! i = backlog_change_at df i"
proof -
  let ?kvs = "map (\<lambda>r. (step r, backlog_units r)) df"
  have s: "sorted (map fst ?kvs)" using assms(1) by (simp add: o_def)
  have i: "i < length ?kvs" using assms(2) by simp
  have p: "i - 1 < length df" using assms(2) by simp
  show ?thesis
    using groupby_shift_sorted [OF s i, of Map.empty] assms(2) p
    by (simp add: backlog_diff_def backlog_change_at_def fillna0_def del: One_nat_def)
qed

section \<open>Properties of the bottleneck detector\<close>

lemma length_backlog_diff [simp]: "length (backlog_diff df) = length df"
  by (simp add: backlog_diff_def)

lemma length_flag_rows [simp]: "length (flag_rows thr df) = length df"
  by (simp add: flag_rows_def)

lemma flag_rows_nth:
  "i < length df \<Longrightarrow> flag_rows thr df ! i =
     (df ! i, backlog_diff df ! i,
      utilization (df ! i) \<ge> thr \<and> (backlog_diff df ! i > 0 \<or> throughput_loss_units (df ! i) > 0))"
  by (simp add: flag_rows_def)

lemma extend_sel [simp]:
  "step (row.extend r m) = step r"
  "timestamp (row.extend r m) = timestamp r"
  "backlog_units (row.extend r m) = backlog_units r"
  "utilization (row.extend r m) = utilization r"
  "throughput_loss_units (row.extend r m) = throughput_loss_units r"
  "demand_units (row.extend r m) = demand_units r"
  "headcount_used (row.extend r m) = headcount_used r"
  "row.truncate (row.extend r m) = r"
  by (simp_all add: row.defs raw_row.defs)

lemma bottleneck_fields_sel [simp]:
  "backlog_change (row.extend r (bottleneck_row.fields c f b)) = c"
  "is_bottleneck (row.extend r (bottleneck_row.fields c f b)) = f"
  "bottleneck_step (row.extend r (bottleneck_row.fields c f b)) = b"
  by (simp_all add: row.defs bottleneck_row.defs)


lemma detect_bottlenecks_Inr:
  assumes "detect_bottlenecks df thr = Inr out"
  shows "out = map (merge_row (groupby_timestamp_apply thr (sort_values_step_timestamp df)))
                 (flag_rows thr (sort_values_step_timestamp df))"
    and "\<not> list_all (\<lambda>(ts, b). b = None) (groupby_timestamp_apply thr (sort_values_step_timestamp df))"
  using assms unfolding detect_bottlenecks_def Let_def merge_row_def
  by (auto split: if_splits)

lemma detect_bottlenecks_nth:
  assumes "detect_bottlenecks df thr = Inr out" and "i < length out"
  shows "length out = length df"
    and "row.truncate (out ! i) = sort_values_step_timestamp df ! i"
    and "step (out ! i) = step (sort_values_step_timestamp df ! i)"
    and "timestamp (out ! i) = timestamp (sort_values_step_timestamp df ! i)"
    and "backlog_units (out ! i) = backlog_units (sort_values_step_timestamp df ! i)"
    and "utilization (out ! i) = utilization (sort_values_step_timestamp df ! i)"
    and "throughput_loss_units (out ! i) = throughput_loss_units (sort_values_step_timestamp df ! i)"
    and "backlog_change (out ! i) = backlog_diff (sort_values_step_timestamp df) ! i"
    and "is_bottleneck (out ! i) \<longleftrightarrow>
           utilization (out ! i) \<ge> thr \<and>
           (backlog_diff (sort_values_step_timestamp df) ! i > 0 \<or> throughput_loss_units (out ! i) > 0)"
    and "bottleneck_step (out ! i) =
           (case map_of (groupby_timestamp_apply thr (sort_values_step_timestamp df))
                   (timestamp (out ! i)) of Some b \<Rightarrow> b | None \<Rightarrow> None)"
proof -
  let ?s = "sort_values_step_timestamp df"
  note out = detect_bottlenecks_Inr(1) [OF assms(1)]
  have len: "length out = length ?s" by (simp add: out)
  then show "length out = length df" by (simp add: sort_values_step_timestamp_def)
  have i: "i < length ?s" using assms(2) len by simp
  have nth: "out ! i = merge_row (groupby_timestamp_apply thr ?s) (flag_rows thr ?s ! i)"
    using i by (simp add: out)
  show "row.truncate (out ! i) = ?s ! i"
    and "step (out ! i) = step (?s ! i)"
    and "timestamp (out ! i) = timestamp (?s ! i)"
    and "backlog_units (out ! i) = backlog_units (?s ! i)"
    and "utilization (out ! i) = utilization (?s ! i)"
    and "throughput_loss_units (out ! i) = throughput_loss_units (?s ! i)"
    and "backlog_change (out ! i) = backlog_diff ?s ! i"
    and "is_bottleneck (out ! i) \<longleftrightarrow>
           utilization (out ! i) \<ge> thr \<and>
           (backlog_diff ?s ! i > 0 \<or> throughput_loss_units (out ! i) > 0)"
    and "bottleneck_step (out ! i) =
           (case map_of (groupby_timestamp_apply thr ?s)
                   (timestamp (out ! i)) of Some b \<Rightarrow> b | None \<Rightarrow> None)"
    unfolding nth flag_rows_nth [OF i] merge_row_def by simp_all
qed

lemma backlog_change_at_cong:
  assumes "i < length xs" "length xs = length ys"
    and "\<And>j. j < length xs \<Longrightarrow> step (xs ! j) = step (ys ! j)"
    and "\<And>j. j < length xs \<Longrightarrow> backlog_units (xs ! j) = backlog_units (ys ! j)"
  shows "backlog_change_at xs i = backlog_change_at ys i"
proof -
  have "i - 1 < length xs" using assms(1) by simp
  then show ?thesis using assms by (simp add: backlog_change_at_def del: One_nat_def)
qed

text \<open>
  In every table that \<^verbatim>\<open>detect_bottlenecks\<close> returns (the rows of the input sorted by
  step and timestamp), \<open>is_bottleneck\<close> is true exactly when \<open>utilization \<ge> threshold\<close> and
  (\<open>backlog_change > 0\<close> or \<open>throughput_loss_units > 0\<close>), where \<open>backlog_change\<close> is the
  row's \<open>backlog_units\<close> minus that of the same step's previous hour, and 0 for the first
  hour of each step; so a row with utilization below the threshold and no throughput loss
  is not flagged.
\<close>

lemma detect_bottlenecks_flag:
  assumes "detect_bottlenecks df threshold_util = Inr out" and "i < length out"
  shows "map row.truncate out = sort_values_step_timestamp df \<and>
         backlog_change (out ! i) = backlog_change_at out i \<and>
         (is_bottleneck (out ! i) \<longleftrightarrow>
            utilization (out ! i) \<ge> threshold_util \<and>
            (backlog_change_at out i > 0 \<or> throughput_loss_units (out ! i) > 0)) \<and>
         (utilization (out ! i) < threshold_util \<and> throughput_loss_units (out ! i) = 0
            \<longrightarrow> \<not> is_bottleneck (out ! i))"
proof -
  let ?s = "sort_values_step_timestamp df"
  have len: "length out = length ?s"
    using detect_bottlenecks_nth(1) [OF assms] by (simp add: sort_values_step_timestamp_def)
  have i: "i < length ?s" using assms(2) len by simp
  have trunc: "map row.truncate out = ?s"
  proof (rule nth_equalityI)
    show "length (map row.truncate out) = length ?s" using len by simp
  next
    fix j assume "j < length (map row.truncate out)"
    then have j: "j < length out" by simp
    show "map row.truncate out ! j = ?s ! j"
      using detect_bottlenecks_nth(2) [OF assms(1) j] j by simp
  qed
  have "backlog_change_at out i = backlog_change_at ?s i"
    using assms(2) len
  proof (rule backlog_change_at_cong)
    fix j assume j: "j < length out"
    show "step (out ! j) = step (?s ! j)" by (rule detect_bottlenecks_nth(3) [OF assms(1) j])
    show "backlog_units (out ! j) = backlog_units (?s ! j)"
      by (rule detect_bottlenecks_nth(5) [OF assms(1) j])
  qed
  also have "\<dots> = backlog_diff ?s ! i"
    using backlog_diff_sorted [OF sorted_step_sort_values i] by simp
  finally have bc: "backlog_diff ?s ! i = backlog_change_at out i" by simp
  have chg: "backlog_change (out ! i) = backlog_change_at out i"
    using detect_bottlenecks_nth(8) [OF assms] bc by simp
  have flag: "is_bottleneck (out ! i) \<longleftrightarrow>
            utilization (out ! i) \<ge> threshold_util \<and>
            (backlog_change_at out i > 0 \<or> throughput_loss_units (out ! i) > 0)"
    using detect_bottlenecks_nth(9) [OF assms] bc by simp
  from trunc chg flag show ?thesis by auto
qed


lemma detect_bottlenecks_flag_example:
  "detect_bottlenecks bottleneck_rows (19 / 20) =
     Inr [\<lparr>timestamp = 0, step = ''receive'', demand_units = 100,
         capacity_units = 80, processed_units = 80, backlog_units = 0,
         utilization = 1 / 2, cycle_time_min = 5, uph = 10,
         labor_hours_used = 8, headcount_used = 8, date = 0, backlog_in = 0,
         total_demand = 0, service_level_hourly = 0,
         throughput_loss_units = 0, backlog_change = 0,
         is_bottleneck = False, bottleneck_step = None\<rparr>,
          \<lparr>timestamp = 1, step = ''receive'', demand_units = 100,
         capacity_units = 80, processed_units = 80, backlog_units = 5,
         utilization = 24 / 25, cycle_time_min = 5, uph = 10,
         labor_hours_used = 8, headcount_used = 8, date = 0, backlog_in = 0,
         total_demand = 0, service_level_hourly = 0,
         throughput_loss_units = 0, backlog_change = 5,
         is_bottleneck = True, bottleneck_step = Some ''receive''\<rparr>] \<and>
   (1::nat) < length [\<lparr>timestamp = 0, step = ''receive'', demand_units = 100,
         capacity_units = 80, processed_units = 80, backlog_units = 0,
         utilization = 1 / 2, cycle_time_min = 5, uph = 10,
         labor_hours_used = 8, headcount_used = 8, date = 0, backlog_in = 0,
         total_demand = 0, service_level_hourly = 0,
         throughput_loss_units = 0, backlog_change = 0,
         is_bottleneck = False, bottleneck_step = None\<rparr>,
          \<lparr>timestamp = 1, step = ''receive'', demand_units = 100,
         capacity_units = 80, processed_units = 80, backlog_units = 5,
         utilization = 24 / 25, cycle_time_min = 5, uph = 10,
         labor_hours_used = 8, headcount_used = 8, date = 0, backlog_in = 0,
         total_demand = 0, service_level_hourly = 0,
         throughput_loss_units = 0, backlog_change = 5,
         is_bottleneck = True, bottleneck_step = Some ''receive''\<rparr>] \<and>
   is_bottleneck (\<lparr>timestamp = 1, step = ''receive'', demand_units = 100,
         capacity_units = 80, processed_units = 80, backlog_units = 5,
         utilization = 24 / 25, cycle_time_min = 5, uph = 10,
         labor_hours_used = 8, headcount_used = 8, date = 0, backlog_in = 0,
         total_demand = 0, service_level_hourly = 0,
         throughput_loss_units = 0, backlog_change = 5,
         is_bottleneck = True, bottleneck_step = Some ''receive''\<rparr>) \<and>
   backlog_change (\<lparr>timestamp = 1, step = ''receive'', demand_units = 100,
         capacity_units = 80, processed_units = 80, backlog_units = 5,
         utilization = 24 / 25, cycle_time_min = 5, uph = 10,
         labor_hours_used = 8, headcount_used = 8, date = 0, backlog_in = 0,
         total_demand = 0, service_level_hourly = 0,
         throughput_loss_units = 0, backlog_change = 5,
         is_bottleneck = True, bottleneck_step = Some ''receive''\<rparr>) = 5 - 0"
proof -
  let ?out = "[\<lparr>timestamp = 0, step = ''receive'', demand_units = 100,
         capacity_units = 80, processed_units = 80, backlog_units = 0,
         utilization = 1 / 2, cycle_time_min = 5, uph = 10,
         labor_hours_used = 8, headcount_used = 8, date = 0, backlog_in = 0,
         total_demand = 0, service_level_hourly = 0,
         throughput_loss_units = 0, backlog_change = 0,
         is_bottleneck = False, bottleneck_step = None\<rparr>,
          \<lparr>timestamp = 1, step = ''receive'', demand_units = 100,
         capacity_units = 80, processed_units = 80, backlog_units = 5,
         utilization = 24 / 25, cycle_time_min = 5, uph = 10,
         labor_hours_used = 8, headcount_used = 8, date = 0, backlog_in = 0,
         total_demand = 0, service_level_hourly = 0,
         throughput_loss_units = 0, backlog_change = 5,
         is_bottleneck = True, bottleneck_step = Some ''receive''\<rparr>]"
  have run: "detect_bottlenecks bottleneck_rows (19 / 20) = Inr ?out"
    by code_simp
  have i: "(1::nat) < length ?out" by simp
  from detect_bottlenecks_flag [OF run i]
  have "backlog_change (?out ! 1) = backlog_change_at ?out 1" by blast
  then show ?thesis using run by (simp add: backlog_change_at_def)
qed

text \<open>
  C5 fails on the code when no timestamp has a bottleneck step. For the one-row table with
  utilization 1/2 and no throughput loss, and threshold 0.95, the inner function returns
  \<open>None\<close> for the only timestamp, and \<^verbatim>\<open>detect_bottlenecks\<close> raises instead of returning
  the table with no step selected.
\<close>

theorem detect_bottlenecks_raises_without_bottleneck:
  "detect_bottlenecks idle_rows (19 / 20) = Inl (ValueError ''Length mismatch'') \<and>
   groupby_timestamp_apply (19 / 20) (sort_values_step_timestamp idle_rows) = [(0, None)]"
  by code_simp

section \<open>Properties of the staffing recommender\<close>

lemma those_Some_nth:
  "those xs = Some ys \<Longrightarrow> length ys = length xs \<and> (\<forall>i<length xs. xs ! i = Some (ys ! i))"
proof (induction xs arbitrary: ys)
  case Nil
  then show ?case by simp
next
  case (Cons x xs)
  from Cons.prems obtain y ys' where x: "x = Some y" and t: "those xs = Some ys'" and ys: "ys = y # ys'"
    by (auto split: option.splits)
  from Cons.IH [OF t] have "length ys' = length xs" and "\<forall>i<length xs. xs ! i = Some (ys' ! i)"
    by simp_all
  then show ?case by (auto simp: x ys nth_Cons split: nat.splits)
qed

lemma those_all_Some:
  "(\<forall>x\<in>set xs. x \<noteq> None) \<Longrightarrow> \<exists>ys. those xs = Some ys"
  by (induction xs) (auto split: option.splits)

lemma staffing_fields_sel [simp]:
  "required_units (row.extend r (staffing_row.fields a b c d e f)) = a"
  "required_capacity_units (row.extend r (staffing_row.fields a b c d e f)) = b"
  "required_labor_hours (row.extend r (staffing_row.fields a b c d e f)) = c"
  "recommended_headcount (row.extend r (staffing_row.fields a b c d e f)) = d"
  "headcount_gap (row.extend r (staffing_row.fields a b c d e f)) = e"
  "labor_cost_impact (row.extend r (staffing_row.fields a b c d e f)) = f"
  "uph (row.extend r m) = uph r"
  "backlog_in (row.extend r m) = backlog_in r"
  by (simp_all add: row.defs raw_row.defs staffing_row.defs)


lemma int64_id: "in_int64 x \<Longrightarrow> int64 x = x"
  by (simp add: in_int64_def int64_def)

lemma astype_int64_id: "in_int64 n \<Longrightarrow> astype_int64 n = n"
  by (simp add: astype_int64_def)

lemma labor_cost_zero [simp]: "labor_cost w 0 = 0"
  by (cases w) (simp_all add: labor_cost_def int64_def)

lemma labor_cost_in_range:
  "cost_in_int64 w g \<Longrightarrow> labor_cost w g = wage_value w * of_int g"
  by (cases w) (simp_all add: labor_cost_def cost_in_int64_def wage_value_def int64_id)

lemma staffing_columns_Some:
  assumes "staffing_columns target uph_by_step wage r b = Some x"
  shows "row.truncate x = r\<lparr>uph := uph x, backlog_in := backlog_in x\<rparr>"
    "step x = step r" "timestamp x = timestamp r" "demand_units x = demand_units r"
    "backlog_units x = backlog_units r" "headcount_used x = headcount_used r"
    "backlog_in x = b"
    "required_units x = demand_units x + backlog_in x"
    "target \<noteq> 0"
    "required_capacity_units x = required_units x / target"
    "uph_by_step (step x) = Some (uph x)"
    "uph x + eps \<noteq> 0"
    "required_labor_hours x = required_capacity_units x / (uph x + eps)"
    "recommended_headcount x = astype_int64 \<lceil>required_labor_hours x\<rceil>"
    "headcount_gap x = int64 (recommended_headcount x - headcount_used x)"
    "labor_cost_impact x = labor_cost wage (max 0 (headcount_gap x))"
  using assms unfolding staffing_columns_def fdiv_def Let_def
  by (auto split: option.splits if_splits)

lemma previous_backlog_cong:
  assumes "i < length xs" "length xs = length ys"
    and "\<And>j. j < length xs \<Longrightarrow> step (xs ! j) = step (ys ! j)"
    and "\<And>j. j < length xs \<Longrightarrow> backlog_units (xs ! j) = backlog_units (ys ! j)"
  shows "previous_backlog xs i = previous_backlog ys i"
proof -
  have "i - 1 < length xs" using assms(1) by simp
  then show ?thesis using assms by (simp add: previous_backlog_def del: One_nat_def)
qed

lemma compute_staffing_recommendations_nth:
  assumes "compute_staffing_recommendations df target uph_by_step wage = Inr out"
    and "i < length out"
  shows "length out = length df"
    and "staffing_columns target uph_by_step wage (sort_values_step_timestamp df ! i)
           (shifted_backlog (sort_values_step_timestamp df) ! i) = Some (out ! i)"
proof -
  let ?s = "sort_values_step_timestamp df"
  let ?xs = "map2 (staffing_columns target uph_by_step wage) ?s (shifted_backlog ?s)"
  from assms(1) have t: "those ?xs = Some out"
    unfolding compute_staffing_recommendations_def Let_def by (auto split: option.splits)
  from those_Some_nth [OF t] have len: "length out = length ?xs"
    and nth: "\<forall>i<length ?xs. ?xs ! i = Some (out ! i)" by simp_all
  have lxs: "length ?xs = length df" by (simp add: length_groupby_shift shifted_backlog_def sort_values_step_timestamp_def)
  show "length out = length df" using len lxs by simp
  have i: "i < length ?xs" using assms(2) len by simp
  then have "?xs ! i = Some (out ! i)" using nth by blast
  moreover have "?xs ! i = staffing_columns target uph_by_step wage (?s ! i) (shifted_backlog ?s ! i)"
    using i by simp
  ultimately show "staffing_columns target uph_by_step wage (?s ! i) (shifted_backlog ?s ! i) = Some (out ! i)"
    by simp
qed








section \<open>The selection rule of the bottleneck step on returned tables\<close>

text \<open>
  Whenever \<^verbatim>\<open>detect_bottlenecks\<close> does return a table, the \<open>bottleneck_step\<close> of a row is a
  function of its timestamp: the value of the inner function on the rows of that timestamp.
  That value is the step of the first row of maximal utilization when some utilization
  reaches the threshold, else the step of the first row of maximal throughput loss when
  some loss is positive, else none.
\<close>

lemma idxmax_first_max:
  assumes "xs \<noteq> []"
  shows "idxmax xs < length xs \<and> xs ! idxmax xs = Max (set xs) \<and>
         (\<forall>j<idxmax xs. xs ! j < Max (set xs))"
proof -
  define m where "m = Max (set xs)"
  define tw where "tw = takeWhile (\<lambda>x. x \<noteq> m) xs"
  have idx: "idxmax xs = length tw" by (simp add: idxmax_def tw_def m_def)
  have min: "m \<in> set xs" unfolding m_def using assms by (simp add: Max_in)
  have le: "length tw \<le> length xs" unfolding tw_def by (rule length_takeWhile_le)
  have ne: "length tw \<noteq> length xs"
  proof
    assume e: "length tw = length xs"
    have "tw @ dropWhile (\<lambda>x. x \<noteq> m) xs = xs" unfolding tw_def by simp
    then have "length tw + length (dropWhile (\<lambda>x. x \<noteq> m) xs) = length xs"
      by (metis length_append)
    with e have "dropWhile (\<lambda>x. x \<noteq> m) xs = []" by simp
    then have "\<forall>x\<in>set xs. x \<noteq> m" by (simp add: dropWhile_eq_Nil_conv)
    with min show False by blast
  qed
  from le ne have k: "length tw < length xs" by simp
  then have at: "xs ! length tw = m"
    using nth_length_takeWhile [of "\<lambda>x. x \<noteq> m" xs] unfolding tw_def by simp
  have before: "\<forall>j<length tw. xs ! j < m"
  proof (intro allI impI)
    fix j assume j: "j < length tw"
    then have eq: "tw ! j = xs ! j" unfolding tw_def by (rule takeWhile_nth)
    have "tw ! j \<in> set tw" using j by (rule nth_mem)
    then have "tw ! j \<noteq> m" unfolding tw_def by (auto dest: set_takeWhileD)
    moreover have "xs ! j \<in> set xs" using j k by simp
    then have "xs ! j \<le> m" unfolding m_def by (simp add: Max_ge)
    ultimately show "xs ! j < m" using eq by simp
  qed
  show ?thesis unfolding idx using k at before by (simp add: m_def)
qed


lemma get_bottleneck_step_selection:
  assumes "grp \<noteq> []"
  shows "(if \<exists>r\<in>set grp. utilization r \<ge> thr then
            \<exists>k<length grp. get_bottleneck_step thr grp = Some (step (grp ! k)) \<and>
               (\<forall>r\<in>set grp. utilization r \<le> utilization (grp ! k)) \<and>
               (\<forall>j<k. utilization (grp ! j) < utilization (grp ! k))
          else if \<exists>r\<in>set grp. throughput_loss_units r > 0 then
            \<exists>k<length grp. get_bottleneck_step thr grp = Some (step (grp ! k)) \<and>
               (\<forall>r\<in>set grp. throughput_loss_units r \<le> throughput_loss_units (grp ! k)) \<and>
               (\<forall>j<k. throughput_loss_units (grp ! j) < throughput_loss_units (grp ! k))
          else get_bottleneck_step thr grp = None)"
proof -
  let ?us = "map utilization grp" and ?ls = "map throughput_loss_units grp"
  have ne: "?us \<noteq> []" "?ls \<noteq> []" using assms by simp_all
  have u_iff: "Max (set ?us) \<ge> thr \<longleftrightarrow> (\<exists>r\<in>set grp. utilization r \<ge> thr)"
    using assms by (simp add: Max_ge_iff)
  have l_iff: "Max (set ?ls) > 0 \<longleftrightarrow> (\<exists>r\<in>set grp. throughput_loss_units r > 0)"
    using assms by (simp add: Max_gr_iff)
  note iu = idxmax_first_max [OF ne(1)]
  note il = idxmax_first_max [OF ne(2)]
  have ku: "idxmax ?us < length grp" using iu by simp
  have kl: "idxmax ?ls < length grp" using il by simp
  have maxu: "\<forall>r\<in>set grp. utilization r \<le> utilization (grp ! idxmax ?us)"
  proof
    fix r assume "r \<in> set grp"
    then have "utilization r \<le> Max (set ?us)" by (simp add: Max_ge)
    also have "\<dots> = utilization (grp ! idxmax ?us)" using iu ku by simp
    finally show "utilization r \<le> utilization (grp ! idxmax ?us)" .
  qed
  have firstu: "\<forall>j<idxmax ?us. utilization (grp ! j) < utilization (grp ! idxmax ?us)"
  proof (intro allI impI)
    fix j assume j: "j < idxmax ?us"
    then have "?us ! j < Max (set ?us)" using iu by blast
    moreover have "?us ! j = utilization (grp ! j)" using j ku by simp
    moreover have "Max (set ?us) = utilization (grp ! idxmax ?us)" using iu ku by simp
    ultimately show "utilization (grp ! j) < utilization (grp ! idxmax ?us)" by simp
  qed
  have maxl: "\<forall>r\<in>set grp. throughput_loss_units r \<le> throughput_loss_units (grp ! idxmax ?ls)"
  proof
    fix r assume "r \<in> set grp"
    then have "throughput_loss_units r \<le> Max (set ?ls)" by (simp add: Max_ge)
    also have "\<dots> = throughput_loss_units (grp ! idxmax ?ls)" using il kl by simp
    finally show "throughput_loss_units r \<le> throughput_loss_units (grp ! idxmax ?ls)" .
  qed
  have firstl: "\<forall>j<idxmax ?ls. throughput_loss_units (grp ! j) < throughput_loss_units (grp ! idxmax ?ls)"
  proof (intro allI impI)
    fix j assume j: "j < idxmax ?ls"
    then have "?ls ! j < Max (set ?ls)" using il by blast
    moreover have "?ls ! j = throughput_loss_units (grp ! j)" using j kl by simp
    moreover have "Max (set ?ls) = throughput_loss_units (grp ! idxmax ?ls)" using il kl by simp
    ultimately show "throughput_loss_units (grp ! j) < throughput_loss_units (grp ! idxmax ?ls)"
      by simp
  qed
  show ?thesis
  proof (cases "\<exists>r\<in>set grp. utilization r \<ge> thr")
    case True
    then have "get_bottleneck_step thr grp = Some (step (grp ! idxmax ?us))"
      using u_iff by (simp add: get_bottleneck_step_def)
    with ku maxu firstu True show ?thesis by auto
  next
    case False
    show ?thesis
    proof (cases "\<exists>r\<in>set grp. throughput_loss_units r > 0")
      case True
      then have "get_bottleneck_step thr grp = Some (step (grp ! idxmax ?ls))"
        using u_iff l_iff False by (simp add: get_bottleneck_step_def)
      with kl maxl firstl True False show ?thesis by auto
    next
      case nl: False
      then have "get_bottleneck_step thr grp = None"
        using u_iff l_iff False by (simp add: get_bottleneck_step_def)
      with False nl show ?thesis by auto
    qed
  qed
qed

lemma map_of_graph:
  "k \<in> set ks \<Longrightarrow> map_of (map (\<lambda>k. (k, f k)) ks) k = Some (f k)"
  by (induction ks) auto

lemma detect_bottlenecks_step_of_timestamp:
  assumes "detect_bottlenecks df thr = Inr out" and "i < length out"
  shows "timestamp_group (sort_values_step_timestamp df) (timestamp (out ! i)) \<noteq> [] \<and>
         bottleneck_step (out ! i) =
           get_bottleneck_step thr
             (timestamp_group (sort_values_step_timestamp df) (timestamp (out ! i)))"
proof -
  let ?s = "sort_values_step_timestamp df"
  have len: "length out = length ?s"
    using detect_bottlenecks_nth(1) [OF assms] by (simp add: sort_values_step_timestamp_def)
  then have i: "i < length ?s" using assms(2) by simp
  have ts: "timestamp (out ! i) = timestamp (?s ! i)" by (rule detect_bottlenecks_nth(4) [OF assms])
  have mem: "?s ! i \<in> set ?s" using i by (rule nth_mem)
  then have "?s ! i \<in> set (timestamp_group ?s (timestamp (out ! i)))"
    by (simp add: timestamp_group_def ts)
  then have ne: "timestamp_group ?s (timestamp (out ! i)) \<noteq> []" by auto
  have "timestamp (out ! i) \<in> set (sort (remdups (map timestamp ?s)))"
    using mem by (simp add: ts)
  then have "map_of (groupby_timestamp_apply thr ?s) (timestamp (out ! i))
               = Some (get_bottleneck_step thr (timestamp_group ?s (timestamp (out ! i))))"
    unfolding groupby_timestamp_apply_def by (rule map_of_graph)
  then show ?thesis using detect_bottlenecks_nth(10) [OF assms] ne by simp
qed

section \<open>When the bottleneck detector returns a table\<close>

text \<open>
  \<^verbatim>\<open>detect_bottlenecks\<close> raises exactly when every row is below the threshold and has no
  positive throughput loss; on every other table it returns.
\<close>

lemma get_bottleneck_step_None_iff:
  assumes "grp \<noteq> []"
  shows "get_bottleneck_step thr grp = None \<longleftrightarrow>
           (\<forall>r\<in>set grp. utilization r < thr \<and> throughput_loss_units r \<le> 0)"
proof -
  have u_iff: "Max (set (map utilization grp)) \<ge> thr \<longleftrightarrow> (\<exists>r\<in>set grp. utilization r \<ge> thr)"
    using assms by (simp add: Max_ge_iff)
  have l_iff: "Max (set (map throughput_loss_units grp)) > 0
                 \<longleftrightarrow> (\<exists>r\<in>set grp. throughput_loss_units r > 0)"
    using assms by (simp add: Max_gr_iff)
  have "get_bottleneck_step thr grp = None \<longleftrightarrow>
          \<not> (\<exists>r\<in>set grp. utilization r \<ge> thr) \<and> \<not> (\<exists>r\<in>set grp. throughput_loss_units r > 0)"
    unfolding get_bottleneck_step_def u_iff l_iff by simp
  then show ?thesis by (auto simp: not_le not_less)
qed

lemma detect_bottlenecks_raises_iff:
  "detect_bottlenecks df thr = Inl (ValueError ''Length mismatch'') \<longleftrightarrow>
     (\<forall>r\<in>set df. utilization r < thr \<and> throughput_loss_units r \<le> 0)"
proof -
  let ?s = "sort_values_step_timestamp df"
  have grp: "\<And>ts. ts \<in> set (map timestamp ?s) \<Longrightarrow> timestamp_group ?s ts \<noteq> []"
    by (auto simp: timestamp_group_def filter_empty_conv)
  have "list_all (\<lambda>(ts, b). b = None) (groupby_timestamp_apply thr ?s) \<longleftrightarrow>
          (\<forall>ts\<in>set (map timestamp ?s). get_bottleneck_step thr (timestamp_group ?s ts) = None)"
    by (simp add: groupby_timestamp_apply_def list_all_iff)
  also have "\<dots> \<longleftrightarrow> (\<forall>ts\<in>set (map timestamp ?s).
                 \<forall>r\<in>set (timestamp_group ?s ts). utilization r < thr \<and> throughput_loss_units r \<le> 0)"
    using get_bottleneck_step_None_iff [OF grp] by blast
  also have "\<dots> \<longleftrightarrow> (\<forall>r\<in>set ?s. utilization r < thr \<and> throughput_loss_units r \<le> 0)"
    by (auto simp: timestamp_group_def)
  also have "\<dots> \<longleftrightarrow> (\<forall>r\<in>set df. utilization r < thr \<and> throughput_loss_units r \<le> 0)"
    by (simp add: sort_values_step_timestamp_def)
  finally have all_none: "list_all (\<lambda>(ts, b). b = None) (groupby_timestamp_apply thr ?s) \<longleftrightarrow>
      (\<forall>r\<in>set df. utilization r < thr \<and> throughput_loss_units r \<le> 0)" .
  show ?thesis
    unfolding detect_bottlenecks_def Let_def using all_none by simp
qed

text \<open>
  C4 fails on the code on such a table. For two steps in one hour, with utilizations 0.9
  and 0.5, no throughput loss and threshold 0.95, the flag that the source assigns is false
  for both rows, as the claim says, but \<^verbatim>\<open>detect_bottlenecks\<close> then raises, so no row with
  \<open>is_bottleneck = false\<close> is returned.
\<close>

theorem detect_bottlenecks_flag_lost_when_raising:
  "map (\<lambda>(r, c, f). (step r, utilization r, throughput_loss_units r, c, f))
     (flag_rows (19 / 20) (sort_values_step_timestamp quiet_rows))
     = [(''pick'', 9 / 10, 0, 0, False), (''receive'', 1 / 2, 0, 0, False)] \<and>
   detect_bottlenecks quiet_rows (19 / 20) = Inl (ValueError ''Length mismatch'')"
  by code_simp


end
